theory Spec2Isabelle
  imports Main
begin

section \<open>Strings\<close>

text \<open>
  A JavaScript string is a sequence of UTF-16 code units.  The model uses
  \<^typ>\<open>string\<close>, so it covers the code units below 256 (Latin-1); on these the
  regular-expression class \<^verbatim>\<open>\s\<close> and the characters removed by
  \<^verbatim>\<open>String.prototype.trim\<close> are the same seven code units.
\<close>

definition js_space :: "char \<Rightarrow> bool" where
  "js_space c \<longleftrightarrow>
     c \<in> set [CHR 0x09, CHR 0x0A, CHR 0x0B, CHR 0x0C, CHR 0x0D, CHR 0x20, CHR 0xA0]"

text \<open>\<^verbatim>\<open>s.trim()\<close>\<close>

definition trim :: "string \<Rightarrow> string" where
  "trim s = rev (dropWhile js_space (rev (dropWhile js_space s)))"

text \<open>\<^verbatim>\<open>s.replace(/\s+/g, ' ')\<close>\<close>

function collapse_ws :: "string \<Rightarrow> string" where
  "collapse_ws [] = []"
| "collapse_ws (c # cs) =
     (if js_space c then CHR '' '' # collapse_ws (dropWhile js_space cs)
      else c # collapse_ws cs)"
  by pat_completeness auto
termination
  by (relation "measure length") (auto simp: less_Suc_eq_le length_dropWhile_le)

text \<open>\<^verbatim>\<open>s.replace(/\s/g, '')\<close>\<close>

definition strip_ws :: "string \<Rightarrow> string" where
  "strip_ws s = filter (\<lambda>c. \<not> js_space c) s"

text \<open>
  Case mapping on Latin-1: the upper-case letters are \<^verbatim>\<open>A-Z\<close> and
  \<^verbatim>\<open>0xC0-0xDE\<close> without the multiplication sign; the lower-case form differs
  in bit 5.
\<close>

definition is_upper :: "char \<Rightarrow> bool" where
  "is_upper c = (let n = (of_char c :: nat) in
     (65 \<le> n \<and> n \<le> 90) \<or> (192 \<le> n \<and> n \<le> 222 \<and> n \<noteq> 215))"

definition is_lower :: "char \<Rightarrow> bool" where
  "is_lower c = (let n = (of_char c :: nat) in
     (97 \<le> n \<and> n \<le> 122) \<or> (224 \<le> n \<and> n \<le> 254 \<and> n \<noteq> 247))"

definition toLower :: "char \<Rightarrow> char" where
  "toLower c = (if is_upper c
     then (case c of Char b0 b1 b2 b3 b4 b5 b6 b7 \<Rightarrow> Char b0 b1 b2 b3 b4 True b6 b7)
     else c)"

definition toUpper :: "char \<Rightarrow> char" where
  "toUpper c = (if is_lower c
     then (case c of Char b0 b1 b2 b3 b4 b5 b6 b7 \<Rightarrow> Char b0 b1 b2 b3 b4 False b6 b7)
     else c)"

text \<open>\<^verbatim>\<open>s.toLowerCase()\<close>\<close>

definition toLowerCase :: "string \<Rightarrow> string" where
  "toLowerCase s = map toLower s"

text \<open>\<^verbatim>\<open>hay.includes(needle)\<close>\<close>

fun includes_str :: "string \<Rightarrow> string \<Rightarrow> bool" where
  "includes_str [] needle = (needle = [])"
| "includes_str (c # cs) needle =
     (take (length needle) (c # cs) = needle \<or> includes_str cs needle)"

text \<open>\<^verbatim>\<open>s.endsWith(t)\<close>\<close>

definition endsWith :: "string \<Rightarrow> string \<Rightarrow> bool" where
  "endsWith s t \<longleftrightarrow> length t \<le> length s \<and> drop (length s - length t) s = t"

text \<open>\<^verbatim>\<open>xs.join(sep)\<close>\<close>

fun join :: "string \<Rightarrow> string list \<Rightarrow> string" where
  "join sep [] = []"
| "join sep [x] = x"
| "join sep (x # y # ys) = x @ sep @ join sep (y # ys)"

text \<open>Decimal rendering of an index inside a template literal.\<close>

definition digit :: "nat \<Rightarrow> char" where
  "digit d = ''0123456789'' ! d"

function string_of_nat :: "nat \<Rightarrow> string" where
  "string_of_nat n = (if n < 10 then [digit n] else string_of_nat (n div 10) @ [digit (n mod 10)])"
  by pat_completeness auto
termination
  by (relation "measure id") auto

declare string_of_nat.simps [simp del]

text \<open>
  The content fingerprint of every strategy:
  \<^verbatim>\<open>content.substring(0, 50).replace(/\s/g, '').substring(0, 20)\<close>
\<close>

definition contentHash :: "string \<Rightarrow> string" where
  "contentHash c = take 20 (strip_ws (take 50 c))"


section \<open>Regular expressions of the source\<close>

text \<open>
  The regular expressions of the source are sequences of the atoms below.  Every
  expression that contains a letter carries the flag \<^verbatim>\<open>i\<close>, so a literal is
  compared after canonicalisation (upper-casing); \<open>anchored\<close> is a leading
  \<^verbatim>\<open>^\<close> and \<open>global\<close> the flag \<^verbatim>\<open>g\<close>.
\<close>

datatype atom =
    Lit string        \<comment> \<open>literal text\<close>
  | Opt char          \<comment> \<open>\<^verbatim>\<open>c?\<close>\<close>
  | Ws_star           \<comment> \<open>\<^verbatim>\<open>\s*\<close>\<close>
  | Ws_plus           \<comment> \<open>\<^verbatim>\<open>\s+\<close>\<close>
  | One_of string     \<comment> \<open>\<^verbatim>\<open>[...]\<close>\<close>

record regex =
  atoms :: "atom list"
  anchored :: bool
  global :: bool

fun ci_prefix :: "string \<Rightarrow> string \<Rightarrow> bool" where
  "ci_prefix [] s = True"
| "ci_prefix (a # l) [] = False"
| "ci_prefix (a # l) (c # s) = (toUpper a = toUpper c \<and> ci_prefix l s)"

text \<open>
  \<open>re_match as s\<close> matches the atoms at the start of \<open>s\<close> with the greedy,
  backtracking priority of the JavaScript matcher and returns what follows the match.
\<close>

fun re_match :: "atom list \<Rightarrow> string \<Rightarrow> string option" where
  "re_match [] s = Some s"
| "re_match (Lit l # r) s = (if ci_prefix l s then re_match r (drop (length l) s) else None)"
| "re_match (Opt c # r) [] = re_match r []"
| "re_match (Opt c # r) (x # xs) =
     (if x = c then (case re_match r xs of Some t \<Rightarrow> Some t | None \<Rightarrow> re_match r (x # xs))
      else re_match r (x # xs))"
| "re_match (Ws_star # r) [] = re_match r []"
| "re_match (Ws_star # r) (x # xs) =
     (if js_space x
      then (case re_match (Ws_star # r) xs of Some t \<Rightarrow> Some t | None \<Rightarrow> re_match r (x # xs))
      else re_match r (x # xs))"
| "re_match (Ws_plus # r) [] = None"
| "re_match (Ws_plus # r) (x # xs) = (if js_space x then re_match (Ws_star # r) xs else None)"
| "re_match (One_of cs # r) [] = None"
| "re_match (One_of cs # r) (x # xs) = (if x \<in> set cs then re_match r xs else None)"

text \<open>The leftmost match: what precedes it, the matched text, what follows it.\<close>

fun re_search :: "atom list \<Rightarrow> string \<Rightarrow> (string \<times> string \<times> string) option" where
  "re_search as [] =
     (case re_match as [] of Some rest \<Rightarrow> Some ([], [], rest) | None \<Rightarrow> None)"
| "re_search as (c # cs) =
     (case re_match as (c # cs) of
        Some rest \<Rightarrow> Some ([], take (length (c # cs) - length rest) (c # cs), rest)
      | None \<Rightarrow> (case re_search as cs of
                   Some (b, m, a) \<Rightarrow> Some (c # b, m, a)
                 | None \<Rightarrow> None))"

text \<open>\<^verbatim>\<open>re.exec(s)\<close> from index 0: the first match.\<close>

definition re_exec :: "regex \<Rightarrow> string \<Rightarrow> (string \<times> string \<times> string) option" where
  "re_exec re s =
     (if anchored re
      then (case re_match (atoms re) s of
              Some rest \<Rightarrow> Some ([], take (length s - length rest) s, rest)
            | None \<Rightarrow> None)
      else re_search (atoms re) s)"

text \<open>\<^verbatim>\<open>re.test(s)\<close>\<close>

definition re_test :: "regex \<Rightarrow> string \<Rightarrow> bool" where
  "re_test re s \<longleftrightarrow> re_exec re s \<noteq> None"

text \<open>
  Removing every match of an unanchored global expression, left to right; after an
  empty match the matcher advances by one code unit.
\<close>

function remove_all :: "atom list \<Rightarrow> string \<Rightarrow> string" where
  "remove_all as [] = []"
| "remove_all as (c # cs) =
     (case re_match as (c # cs) of
        Some rest \<Rightarrow>
          if length rest \<le> length cs then remove_all as rest else c # remove_all as cs
      | None \<Rightarrow> c # remove_all as cs)"
  by pat_completeness auto
termination
  by (relation "measure (\<lambda>(as, s). length s)") auto

text \<open>\<^verbatim>\<open>s.replace(re, '')\<close>\<close>

definition replace_empty :: "regex \<Rightarrow> string \<Rightarrow> string" where
  "replace_empty re s =
     (if global re \<and> \<not> anchored re then remove_all (atoms re) s
      else (case re_exec re s of Some (b, m, a) \<Rightarrow> b @ a | None \<Rightarrow> s))"

text \<open>All matches of an unanchored global expression, left to right.\<close>

function all_matches :: "atom list \<Rightarrow> string \<Rightarrow> string list" where
  "all_matches as [] = (case re_match as [] of Some rest \<Rightarrow> [[]] | None \<Rightarrow> [])"
| "all_matches as (c # cs) =
     (case re_match as (c # cs) of
        Some rest \<Rightarrow>
          if length rest \<le> length cs
          then take (length (c # cs) - length rest) (c # cs) # all_matches as rest
          else [] # all_matches as cs
      | None \<Rightarrow> all_matches as cs)"
  by pat_completeness auto
termination
  by (relation "measure (\<lambda>(as, s). length s)") auto

text \<open>
  \<^verbatim>\<open>s.match(re)\<close>: \<open>None\<close> is \<^verbatim>\<open>null\<close>; with the flag \<^verbatim>\<open>g\<close> the
  array holds every match, without it the first match only (the expressions of the
  source have no capture group).
\<close>

definition js_match :: "regex \<Rightarrow> string \<Rightarrow> string list option" where
  "js_match re s =
     (if global re \<and> \<not> anchored re
      then (case all_matches (atoms re) s of [] \<Rightarrow> None | m # ms \<Rightarrow> Some (m # ms))
      else (case re_exec re s of Some (b, m, a) \<Rightarrow> Some [m] | None \<Rightarrow> None))"

text \<open>
  \<^verbatim>\<open>s.split(re)\<close> for a separator that matches no empty string (the only
  separator of the source is \<^verbatim>\<open>/[.!?]\s+/\<close>): \<open>cur\<close> is the piece read so far.
\<close>

function split_go :: "atom list \<Rightarrow> string \<Rightarrow> string \<Rightarrow> string list" where
  "split_go as cur [] = [cur]"
| "split_go as cur (c # cs) =
     (case re_match as (c # cs) of
        Some rest \<Rightarrow>
          if length rest \<le> length cs then cur # split_go as [] rest
          else split_go as (cur @ [c]) cs
      | None \<Rightarrow> split_go as (cur @ [c]) cs)"
  by pat_completeness auto
termination
  by (relation "measure (\<lambda>(as, cur, s). length s)") auto

definition split_re :: "atom list \<Rightarrow> string \<Rightarrow> string list" where
  "split_re as s = split_go as [] s"


section \<open>Claude: aggregation of the assistant blocks of one turn\<close>

text \<open>
  The numeric tests of the source compare a length with a product such as
  \<^verbatim>\<open>seen.length * 0.8\<close>.  For the lengths of strings the double product is within
  rounding distance of the exact one and the comparison agrees with the exact one, so
  the model states them over the integers: \<open>m < n * 0.8\<close> is \<open>5 * m < 4 * n\<close>,
  \<open>m \<ge> n * 0.8\<close> is \<open>5 * m \<ge> 4 * n\<close>, \<open>m \<ge> n * 0.7\<close> is \<open>10 * m \<ge> 7 * n\<close> and
  \<open>m \<ge> n * 0.5\<close> is \<open>2 * m \<ge> n\<close>.
\<close>

definition disclaimerPatterns :: "regex list" where
  "disclaimerPatterns =
    [\<lparr>atoms = [Lit ''claude can make mistakes'', Opt (CHR ''.''), Ws_star,
               Lit ''please double-check responses'', Opt (CHR ''.'')],
      anchored = False, global = True\<rparr>,
     \<lparr>atoms = [Lit ''pondering'', Opt (CHR '',''), Ws_star, Lit ''stand by...''],
      anchored = False, global = True\<rparr>,
     \<lparr>atoms = [Lit ''claude can make mistakes''], anchored = True, global = False\<rparr>,
     \<lparr>atoms = [Lit ''please double-check''], anchored = True, global = False\<rparr>]"

definition thinkingPatterns :: "regex list" where
  "thinkingPatterns =
    [\<lparr>atoms = [Lit ''pondering'', Opt (CHR '',''), Ws_star, Lit ''stand by...''],
      anchored = True, global = False\<rparr>,
     \<lparr>atoms = [Lit ''thinking...''], anchored = True, global = False\<rparr>,
     \<lparr>atoms = [Lit ''generating...''], anchored = True, global = False\<rparr>,
     \<lparr>atoms = [Lit ''pondering'', Opt (CHR '',''), Ws_star, Lit ''stand by''],
      anchored = False, global = False\<rparr>,
     \<lparr>atoms = [Lit ''stand by''], anchored = True, global = False\<rparr>,
     \<lparr>atoms = [Lit ''searching''], anchored = True, global = False\<rparr>,
     \<lparr>atoms = [Lit ''web searching''], anchored = True, global = False\<rparr>,
     \<lparr>atoms = [Lit ''browsing''], anchored = True, global = False\<rparr>,
     \<lparr>atoms = [Lit ''checking''], anchored = True, global = False\<rparr>,
     \<lparr>atoms = [Lit ''looking up''], anchored = True, global = False\<rparr>,
     \<lparr>atoms = [Lit ''running''], anchored = True, global = False\<rparr>,
     \<lparr>atoms = [Lit ''analyzing''], anchored = True, global = False\<rparr>,
     \<lparr>atoms = [Lit ''reading''], anchored = True, global = False\<rparr>]"

text \<open>
  \<open>raw\<close> is the \<^verbatim>\<open>textContent\<close> of every assistant block of the turn, in the
  sorted order of the blocks.  Extract text and filter empty blocks:
\<close>

definition blockTexts :: "string list \<Rightarrow> string list" where
  "blockTexts raw = filter (\<lambda>t. length t > 0) (map trim raw)"

text \<open>Remove standard disclaimers, pattern after pattern, trimming after each.\<close>

definition clean_block :: "string \<Rightarrow> string" where
  "clean_block t = foldl (\<lambda>cleaned pattern. trim (replace_empty pattern cleaned)) t disclaimerPatterns"

definition cleanedBlockTexts :: "string list \<Rightarrow> string list" where
  "cleanedBlockTexts bt = filter (\<lambda>t. length t > 0) (map clean_block bt)"

definition blockTextsToUse :: "string list \<Rightarrow> string list" where
  "blockTextsToUse bt =
     (let cleaned = cleanedBlockTexts bt in if length cleaned > 0 then cleaned else bt)"

text \<open>
  The inner loop over \<^verbatim>\<open>seenContent\<close> (a set, iterated in insertion order): the
  result is the flag \<^verbatim>\<open>isSubstring\<close> with the two collections as the loop leaves
  them.  \<open>todo\<close> is what is left of the iteration.
\<close>

fun find_index :: "('a \<Rightarrow> bool) \<Rightarrow> 'a list \<Rightarrow> nat option" where
  "find_index P [] = None"
| "find_index P (x # xs) =
     (if P x then Some 0 else (case find_index P xs of Some i \<Rightarrow> Some (Suc i) | None \<Rightarrow> None))"

definition splice1 :: "nat \<Rightarrow> 'a list \<Rightarrow> 'a list" where
  "splice1 i xs = take i xs @ drop (Suc i) xs"

fun scan_seen ::
  "string \<Rightarrow> string list \<Rightarrow> string list \<Rightarrow> string list \<Rightarrow> bool \<times> string list \<times> string list"
where
  "scan_seen currentNormalized [] uniqueTexts seenContent = (False, uniqueTexts, seenContent)"
| "scan_seen currentNormalized (seen # todo) uniqueTexts seenContent =
     (if 5 * length currentNormalized < 4 * length seen \<and> includes_str seen currentNormalized
      then (True, uniqueTexts, seenContent)
      else if 5 * length seen < 4 * length currentNormalized \<and> includes_str currentNormalized seen
      then (case find_index (\<lambda>t. toLowerCase (trim t) = seen) uniqueTexts of
              Some indexToRemove \<Rightarrow>
                (False, splice1 indexToRemove uniqueTexts, removeAll seen seenContent)
            | None \<Rightarrow> (False, uniqueTexts, seenContent))
      else scan_seen currentNormalized todo uniqueTexts seenContent)"

text \<open>The outer loop over \<^verbatim>\<open>blockTextsToUse\<close>.\<close>

fun dedup_blocks :: "string list \<Rightarrow> string list \<Rightarrow> string list \<Rightarrow> string list" where
  "dedup_blocks [] uniqueTexts seenContent = uniqueTexts"
| "dedup_blocks (b # bs) uniqueTexts seenContent =
     (let current = trim b; currentNormalized = toLowerCase current in
      if length current = 0 then dedup_blocks bs uniqueTexts seenContent
      else if currentNormalized \<in> set seenContent then dedup_blocks bs uniqueTexts seenContent
      else (case scan_seen currentNormalized seenContent uniqueTexts seenContent of
              (isSubstring, uniqueTexts', seenContent') \<Rightarrow>
                if isSubstring then dedup_blocks bs uniqueTexts' seenContent'
                else dedup_blocks bs (uniqueTexts' @ [current])
                       (seenContent' @ [currentNormalized])))"

text \<open>Deduplicate, then ensure at least one block is preserved.\<close>

definition uniqueTexts :: "string list \<Rightarrow> string list" where
  "uniqueTexts toUse =
     (let u = dedup_blocks toUse [] [] in
      if length u = 0 \<and> length toUse > 0
      then (case find (\<lambda>b. length b > 0 \<and> length (trim b) > 0) toUse of
              Some firstBlock \<Rightarrow> [trim firstBlock]
            | None \<Rightarrow> u)
      else u)"

definition originalCombined :: "string list \<Rightarrow> string" where
  "originalCombined u = trim (collapse_ws (join '' '' u))"

text \<open>Sentence-level deduplication.\<close>

definition sentence_end :: "atom list" where
  "sentence_end = [One_of ''.!?'', Ws_plus]"

fun uniqueSentences :: "string list \<Rightarrow> string list \<Rightarrow> string list" where
  "uniqueSentences [] seenSentences = []"
| "uniqueSentences (sentence # rest) seenSentences =
     (let normalized = take 50 (toLowerCase (trim sentence)) in
      if normalized \<in> set seenSentences then uniqueSentences rest seenSentences
      else trim sentence # uniqueSentences rest (seenSentences @ [normalized]))"

definition sentence_dedup :: "string \<Rightarrow> string" where
  "sentence_dedup original =
     (let sentences = filter (\<lambda>s. length (trim s) > 0) (split_re sentence_end original) in
      if length sentences > 1
      then (let deduplicated = trim (join ''. '' (uniqueSentences sentences [])) in
            if length deduplicated > 0 \<and> 2 * length deduplicated \<ge> length original
            then deduplicated else original)
      else original)"

text \<open>The text of the turn as the final validation sees it.\<close>

definition combinedContent :: "string list \<Rightarrow> string" where
  "combinedContent raw =
     sentence_dedup (originalCombined (uniqueTexts (blockTextsToUse (blockTexts raw))))"

text \<open>Final validation: filter out pure disclaimers or thinking states.\<close>

definition isOnlyDisclaimer :: "string \<Rightarrow> bool" where
  "isOnlyDisclaimer c =
     list_ex (\<lambda>pattern. case js_match pattern c of
                 None \<Rightarrow> False
               | Some matches \<Rightarrow>
                   5 * sum_list (map length matches) \<ge> 4 * length c \<and> length c < 150)
       disclaimerPatterns"

definition isThinkingOnly :: "string \<Rightarrow> bool" where
  "isThinkingOnly c =
     list_ex (\<lambda>pattern. case re_exec pattern c of
                 None \<Rightarrow> False
               | Some (b, m, a) \<Rightarrow> 10 * length m \<ge> 7 * length c \<or> length c < 100)
       thinkingPatterns"

definition endsWithEllipsis :: "string \<Rightarrow> bool" where
  "endsWithEllipsis c \<longleftrightarrow> endsWith (trim c) ''...'' \<and> length c < 200"

definition turn_accepted :: "string \<Rightarrow> bool" where
  "turn_accepted c \<longleftrightarrow>
     length c \<ge> 10 \<and> \<not> isOnlyDisclaimer c \<and> \<not> isThinkingOnly c \<and> \<not> endsWithEllipsis c"


section \<open>The rendered document\<close>

text \<open>
  The document is a tree of elements and text nodes.  An element carries its tag name
  (lower case, as \<^verbatim>\<open>localName\<close>), its attributes and the layout data the source
  reads: the bounding client rectangle, \<^verbatim>\<open>offsetHeight\<close> and the computed
  \<^verbatim>\<open>display\<close> and \<^verbatim>\<open>visibility\<close>.  Pixel values are integers.  A node is
  referred to by its path from the root, the list of child indices; the root of the
  tree is \<^verbatim>\<open>document.documentElement\<close>.
\<close>

record geometry =
  rect_top :: int
  rect_bottom :: int
  rect_width :: int
  rect_height :: int
  offsetHeight :: int
  display :: string
  visibility :: string

datatype node =
    TextNode string
  | Element string "(string \<times> string) list" geometry "node list"

type_synonym path = "nat list"

fun is_element :: "node \<Rightarrow> bool" where
  "is_element (TextNode s) = False"
| "is_element (Element t a g ks) = True"

fun tagName :: "node \<Rightarrow> string" where
  "tagName (TextNode s) = []"
| "tagName (Element t a g ks) = t"

fun attributes :: "node \<Rightarrow> (string \<times> string) list" where
  "attributes (TextNode s) = []"
| "attributes (Element t a g ks) = a"

fun childNodes :: "node \<Rightarrow> node list" where
  "childNodes (TextNode s) = []"
| "childNodes (Element t a g ks) = ks"

fun geometry_of :: "node \<Rightarrow> geometry option" where
  "geometry_of (TextNode s) = None"
| "geometry_of (Element t a g ks) = Some g"

fun node_at :: "node \<Rightarrow> path \<Rightarrow> node option" where
  "node_at n [] = Some n"
| "node_at n (i # p) =
     (if i < length (childNodes n) then node_at (childNodes n ! i) p else None)"

text \<open>\<^verbatim>\<open>node.textContent\<close>\<close>

fun textContent :: "node \<Rightarrow> string" where
  "textContent (TextNode s) = s"
| "textContent (Element t a g ks) = concat (map textContent ks)"

definition text_at :: "node \<Rightarrow> path \<Rightarrow> string" where
  "text_at d p = (case node_at d p of Some n \<Rightarrow> textContent n | None \<Rightarrow> [])"

text \<open>The elements of a subtree in document order (preorder), its root first.\<close>

fun elements :: "node \<Rightarrow> path list" and elements_from :: "nat \<Rightarrow> node list \<Rightarrow> path list" where
  "elements (TextNode s) = []"
| "elements (Element t a g ks) = [] # elements_from 0 ks"
| "elements_from i [] = []"
| "elements_from i (k # ks) = map ((#) i) (elements k) @ elements_from (Suc i) ks"

text \<open>The descendant elements of the element at \<open>p\<close>, in document order.\<close>

definition descendants :: "node \<Rightarrow> path \<Rightarrow> path list" where
  "descendants d p =
     (case node_at d p of Some n \<Rightarrow> map ((@) p) (tl (elements n)) | None \<Rightarrow> [])"

text \<open>The proper ancestors of a path, nearest first.\<close>

definition ancestors :: "path \<Rightarrow> path list" where
  "ancestors p = map (\<lambda>k. take k p) (rev [0..<length p])"

definition ancestor_nodes :: "node \<Rightarrow> path \<Rightarrow> node list" where
  "ancestor_nodes d p = List.map_filter (node_at d) (ancestors p)"

text \<open>
  \<^verbatim>\<open>a.compareDocumentPosition(b) & Node.DOCUMENT_POSITION_FOLLOWING\<close>: \<open>b\<close>
  follows \<open>a\<close> in document order (a descendant follows its ancestor).
\<close>

fun following :: "path \<Rightarrow> path \<Rightarrow> bool" where
  "following [] [] = False"
| "following [] (j # q) = True"
| "following (i # p) [] = False"
| "following (i # p) (j # q) = (i < j \<or> (i = j \<and> following p q))"

subsection \<open>Attributes and classes\<close>

definition getAttribute :: "node \<Rightarrow> string \<Rightarrow> string option" where
  "getAttribute n name = map_of (attributes n) name"

text \<open>\<^verbatim>\<open>el.classList.toString()\<close>: the value of the class attribute.\<close>

definition className :: "node \<Rightarrow> string" where
  "className n = (case getAttribute n ''class'' of Some v \<Rightarrow> v | None \<Rightarrow> [])"

text \<open>\<^verbatim>\<open>el.id\<close>\<close>

definition element_id :: "node \<Rightarrow> string" where
  "element_id n = (case getAttribute n ''id'' of Some v \<Rightarrow> v | None \<Rightarrow> [])"

text \<open>The class attribute is split at ASCII whitespace.\<close>

definition html_space :: "char \<Rightarrow> bool" where
  "html_space c \<longleftrightarrow> c \<in> set [CHR 0x09, CHR 0x0A, CHR 0x0C, CHR 0x0D, CHR 0x20]"

fun tokens_go :: "string \<Rightarrow> string \<Rightarrow> string list" where
  "tokens_go cur [] = (if cur = [] then [] else [cur])"
| "tokens_go cur (c # cs) =
     (if html_space c then (if cur = [] then tokens_go [] cs else cur # tokens_go [] cs)
      else tokens_go (cur @ [c]) cs)"

definition classList :: "node \<Rightarrow> string list" where
  "classList n = tokens_go [] (className n)"

subsection \<open>Selectors\<close>

text \<open>
  The selectors of the source: a selector list of complex selectors, each a chain of
  compound selectors joined by the descendant combinator (outermost first), each
  compound a conjunction of simple selectors.
\<close>

datatype simple =
    Sel_tag string                \<comment> \<open>\<^verbatim>\<open>div\<close>\<close>
  | Sel_class string              \<comment> \<open>\<^verbatim>\<open>.name\<close>\<close>
  | Sel_id string                 \<comment> \<open>\<^verbatim>\<open>#name\<close>\<close>
  | Sel_has string                \<comment> \<open>\<^verbatim>\<open>[attr]\<close>\<close>
  | Sel_eq string string          \<comment> \<open>\<^verbatim>\<open>[attr="v"]\<close>\<close>
  | Sel_prefix string string      \<comment> \<open>\<^verbatim>\<open>[attr^="v"]\<close>\<close>
  | Sel_contains string string    \<comment> \<open>\<^verbatim>\<open>[attr*="v"]\<close>\<close>

type_synonym compound = "simple list"
type_synonym complex = "compound list"
type_synonym selector = "complex list"

fun matches_simple :: "node \<Rightarrow> simple \<Rightarrow> bool" where
  "matches_simple n (Sel_tag t) = (tagName n = t)"
| "matches_simple n (Sel_class c) = (c \<in> set (classList n))"
| "matches_simple n (Sel_id i) = (getAttribute n ''id'' = Some i)"
| "matches_simple n (Sel_has a) = (getAttribute n a \<noteq> None)"
| "matches_simple n (Sel_eq a v) = (getAttribute n a = Some v)"
| "matches_simple n (Sel_prefix a v) =
     (case getAttribute n a of Some x \<Rightarrow> v \<noteq> [] \<and> take (length v) x = v | None \<Rightarrow> False)"
| "matches_simple n (Sel_contains a v) =
     (case getAttribute n a of Some x \<Rightarrow> v \<noteq> [] \<and> includes_str x v | None \<Rightarrow> False)"

definition matches_compound :: "node \<Rightarrow> compound \<Rightarrow> bool" where
  "matches_compound n c \<longleftrightarrow> is_element n \<and> list_all (matches_simple n) c"

text \<open>
  The compounds left of the subject (innermost first) are matched against the
  ancestors (nearest first).
\<close>

fun match_up :: "compound list \<Rightarrow> node list \<Rightarrow> bool" where
  "match_up [] ancs = True"
| "match_up (c # cs) [] = False"
| "match_up (c # cs) (a # ancs) =
     (if matches_compound a c then match_up cs ancs else match_up (c # cs) ancs)"

definition matches_complex :: "node list \<Rightarrow> node \<Rightarrow> complex \<Rightarrow> bool" where
  "matches_complex ancs n cx =
     (case rev cx of [] \<Rightarrow> False | subject # outer \<Rightarrow> matches_compound n subject \<and> match_up outer ancs)"

text \<open>\<^verbatim>\<open>el.matches(selector)\<close>, for an element with the given ancestors.\<close>

definition matches :: "node list \<Rightarrow> node \<Rightarrow> selector \<Rightarrow> bool" where
  "matches ancs n sel \<longleftrightarrow> list_ex (matches_complex ancs n) sel"

definition matches_at :: "node \<Rightarrow> selector \<Rightarrow> path \<Rightarrow> bool" where
  "matches_at d sel p =
     (case node_at d p of Some n \<Rightarrow> matches (ancestor_nodes d p) n sel | None \<Rightarrow> False)"

text \<open>\<^verbatim>\<open>root.querySelectorAll(selector)\<close> for the element at \<open>root\<close>\<close>

definition querySelectorAll :: "node \<Rightarrow> path \<Rightarrow> selector \<Rightarrow> path list" where
  "querySelectorAll d root sel = filter (matches_at d sel) (descendants d root)"

text \<open>\<^verbatim>\<open>document.querySelectorAll(selector)\<close>\<close>

definition document_querySelectorAll :: "node \<Rightarrow> selector \<Rightarrow> path list" where
  "document_querySelectorAll d sel = filter (matches_at d sel) (elements d)"

definition first :: "'a list \<Rightarrow> 'a option" where
  "first xs = (case xs of [] \<Rightarrow> None | x # _ \<Rightarrow> Some x)"

definition querySelector :: "node \<Rightarrow> path \<Rightarrow> selector \<Rightarrow> path option" where
  "querySelector d root sel = first (querySelectorAll d root sel)"

definition document_querySelector :: "node \<Rightarrow> selector \<Rightarrow> path option" where
  "document_querySelector d sel = first (document_querySelectorAll d sel)"

text \<open>\<^verbatim>\<open>el.closest(selector)\<close>\<close>

definition closest :: "node \<Rightarrow> path \<Rightarrow> selector \<Rightarrow> path option" where
  "closest d p sel = first (filter (matches_at d sel) (p # ancestors p))"

text \<open>\<^verbatim>\<open>document.body\<close>: the first body or frameset child of the html element.\<close>

definition body :: "node \<Rightarrow> path option" where
  "body d =
     (if tagName d = ''html''
      then (case find_index (\<lambda>k. tagName k = ''body'' \<or> tagName k = ''frameset'') (childNodes d) of
              Some i \<Rightarrow> Some [i]
            | None \<Rightarrow> None)
      else None)"

text \<open>
  \<^verbatim>\<open>clone = el.cloneNode(true); clone.querySelectorAll(selector).forEach(e => e.remove())\<close>:
  the copy of the subtree without the descendants that match.  \<open>ancs\<close> are the
  ancestors inside the copy.
\<close>

fun strip :: "selector \<Rightarrow> node list \<Rightarrow> node \<Rightarrow> node" where
  "strip sel ancs (TextNode s) = TextNode s"
| "strip sel ancs (Element t a g ks) =
     Element t a g
       (map (strip sel (Element t a g ks # ancs))
          (filter (\<lambda>k. \<not> matches (Element t a g ks # ancs) k sel) ks))"

definition stripped_text :: "node \<Rightarrow> path \<Rightarrow> selector \<Rightarrow> string" where
  "stripped_text d p sel =
     (case node_at d p of Some n \<Rightarrow> trim (textContent (strip sel [] n)) | None \<Rightarrow> [])"


section \<open>Message records\<close>

text \<open>
  The object every strategy pushes.  \<open>element\<close> is the path of the anchor node;
  \<open>msg_order\<close> is \<open>None\<close> when the object has no \<^verbatim>\<open>order\<close> property.  The clock
  \<open>now k\<close> is the value of the \<open>k\<close>-th call of \<^verbatim>\<open>Date.now()\<close> in one scan (every
  strategy calls it once per pushed record).
\<close>

record message =
  msg_id :: string
  role :: string
  content :: string
  fullContent :: string
  element :: path
  timestamp :: int
  msg_order :: "nat option"

text \<open>The template literal \<^verbatim>\<open>`msg-${platform}-${role}-${index}-${contentHash}`\<close>\<close>

definition make_id :: "string \<Rightarrow> string \<Rightarrow> nat \<Rightarrow> string \<Rightarrow> string" where
  "make_id platform r index c =
     ''msg-'' @ platform @ ''-'' @ r @ ''-'' @ string_of_nat index @ ''-'' @ contentHash c"


text \<open>
  \<^verbatim>\<open>Array.prototype.sort\<close> with a comparator that puts \<open>a\<close> first when \<open>b\<close>
  follows \<open>a\<close> in the document.  On distinct nodes of one tree the comparator is a
  total order, so the result does not depend on the sorting algorithm; the model
  inserts one element after the other.
\<close>

fun insert_by_position :: "('a \<Rightarrow> path) \<Rightarrow> 'a \<Rightarrow> 'a list \<Rightarrow> 'a list" where
  "insert_by_position pos x [] = [x]"
| "insert_by_position pos x (y # ys) =
     (if following (pos x) (pos y) then x # y # ys else y # insert_by_position pos x ys)"

definition sort_by_position :: "('a \<Rightarrow> path) \<Rightarrow> 'a list \<Rightarrow> 'a list" where
  "sort_by_position pos xs = foldr (insert_by_position pos) xs []"


section \<open>ChatGPT strategy\<close>

text \<open>
  Content extraction of one element: the prioritized selectors, the fallback to a
  descendant whose class contains \<^verbatim>\<open>message\<close> or to the element itself, then the
  whitespace normalization.
\<close>

definition chatgpt_content :: "node \<Rightarrow> path \<Rightarrow> string" where
  "chatgpt_content d el =
     (let content0 = [];
          content1 =
            (case querySelector d el [[[Sel_class ''whitespace-pre-wrap'']]] of
               Some whitespaceEl \<Rightarrow>
                 if length (trim (text_at d whitespaceEl)) > 0
                 then trim (text_at d whitespaceEl) else content0
             | None \<Rightarrow> content0);
          content2 =
            (if length content1 < 1
             then (case querySelector d el [[[Sel_class ''markdown'']]] of
                     Some markdownEl \<Rightarrow>
                       if length (trim (text_at d markdownEl)) > 0
                       then trim (text_at d markdownEl) else content1
                   | None \<Rightarrow> content1)
             else content1);
          content3 =
            (if length content2 < 1
             then (case querySelector d el [[[Sel_class ''text-base'']]] of
                     Some textBaseEl \<Rightarrow>
                       if length (trim (text_at d textBaseEl)) > 0
                       then trim (text_at d textBaseEl) else content2
                   | None \<Rightarrow> content2)
             else content2);
          content4 =
            (if length content3 < 1
             then (let messageContent =
                         (case querySelector d el [[[Sel_contains ''class'' ''message'']]] of
                            Some m \<Rightarrow> m | None \<Rightarrow> el)
                   in trim (text_at d messageContent))
             else content3)
      in trim (collapse_ws content4))"

text \<open>
  The body of the \<^verbatim>\<open>forEach\<close> callback: \<open>None\<close> is an early return.  \<open>k\<close> counts
  the calls of the clock.  The pushed object has no \<^verbatim>\<open>order\<close> property.
\<close>

definition chatgpt_message :: "node \<Rightarrow> (nat \<Rightarrow> int) \<Rightarrow> path \<Rightarrow> nat \<Rightarrow> nat \<Rightarrow> message option" where
  "chatgpt_message d now el index k =
     (case node_at d el of
        None \<Rightarrow> None
      | Some n \<Rightarrow>
         (case getAttribute n ''data-message-author-role'' of
            None \<Rightarrow> None
          | Some roleAttr \<Rightarrow>
              if roleAttr = [] then None
              else (let content = chatgpt_content d el in
                    if length content < 1 then None
                    else Some \<lparr>msg_id = make_id ''chatgpt'' roleAttr index content,
                               role = roleAttr,
                               content = take 200 content,
                               fullContent = content,
                               element = el,
                               timestamp = now k,
                               msg_order = None\<rparr>)))"

fun chatgpt_forEach ::
  "node \<Rightarrow> (nat \<Rightarrow> int) \<Rightarrow> path list \<Rightarrow> nat \<Rightarrow> message list \<Rightarrow> message list" where
  "chatgpt_forEach d now [] index newMessages = newMessages"
| "chatgpt_forEach d now (el # els) index newMessages =
     chatgpt_forEach d now els (Suc index)
       (case chatgpt_message d now el index (length newMessages) of
          Some m \<Rightarrow> newMessages @ [m]
        | None \<Rightarrow> newMessages)"

definition chatgpt_detectMessages :: "node \<Rightarrow> (nat \<Rightarrow> int) \<Rightarrow> message list" where
  "chatgpt_detectMessages d now =
     (case document_querySelector d [[[Sel_tag ''main'']]] of
        None \<Rightarrow> []
      | Some container \<Rightarrow>
          chatgpt_forEach d now
            (querySelectorAll d container [[[Sel_has ''data-message-author-role'']]]) 0 [])"

text \<open>\<^verbatim>\<open>getContainer\<close>: \<open>None\<close> is \<^verbatim>\<open>null\<close>.\<close>

definition chatgpt_getContainer :: "node \<Rightarrow> path option" where
  "chatgpt_getContainer d = document_querySelector d [[[Sel_tag ''main'']]]"


section \<open>Qwen strategy\<close>

definition qwen_strip5 :: selector where
  "qwen_strip5 = [[[Sel_tag ''button'']], [[Sel_tag ''svg'']], [[Sel_class ''message-footer'']],
                  [[Sel_contains ''class'' ''button'']], [[Sel_contains ''class'' ''footer'']]]"

definition qwen_strip6 :: selector where
  "qwen_strip6 = qwen_strip5 @ [[[Sel_contains ''class'' ''action'']]]"

text \<open>The first selector of a list that finds an element (\<^verbatim>\<open>if (!contentEl) ...\<close>).\<close>

fun first_found :: "node \<Rightarrow> path \<Rightarrow> selector list \<Rightarrow> path option" where
  "first_found d el [] = None"
| "first_found d el (sel # sels) =
     (case querySelector d el sel of Some e \<Rightarrow> Some e | None \<Rightarrow> first_found d el sels)"

definition qwen_user_selectors :: "selector list" where
  "qwen_user_selectors =
     [[[[Sel_class ''user-message-text-content''],
        [Sel_tag ''p'', Sel_class ''user-message-content'', Sel_class ''whitespace-pre-wrap'']]],
      [[[Sel_tag ''p'', Sel_class ''user-message-content'', Sel_class ''whitespace-pre-wrap'']]],
      [[[Sel_tag ''p'', Sel_class ''user-message-content'']]],
      [[[Sel_contains ''class'' ''user-message-content'']]]]"

definition qwen_assistant_selectors :: "selector list" where
  "qwen_assistant_selectors =
     [[[[Sel_id ''response-content-container'', Sel_class ''markdown-content-container'']]],
      [[[Sel_class ''markdown-content-container'', Sel_class ''markdown-prose'']]],
      [[[Sel_class ''text-response-render-container'']]],
      [[[Sel_class ''markdown-content-container'']]]]"

definition qwen_user_content :: "node \<Rightarrow> path \<Rightarrow> string" where
  "qwen_user_content d msgEl =
     (case first_found d msgEl qwen_user_selectors of
        Some contentEl \<Rightarrow> trim (text_at d contentEl)
      | None \<Rightarrow>
          (case querySelector d msgEl [[[Sel_class ''user-message-text-content'']]] of
             Some textContainer \<Rightarrow> stripped_text d textContainer qwen_strip5
           | None \<Rightarrow> stripped_text d msgEl qwen_strip6))"

definition qwen_assistant_content :: "node \<Rightarrow> path \<Rightarrow> string" where
  "qwen_assistant_content d msgEl =
     (case first_found d msgEl qwen_assistant_selectors of
        Some contentContainer \<Rightarrow> stripped_text d contentContainer qwen_strip6
      | None \<Rightarrow>
          (case querySelector d msgEl [[[Sel_class ''response-message-body'']]] of
             Some responseBody \<Rightarrow> stripped_text d responseBody qwen_strip5
           | None \<Rightarrow> stripped_text d msgEl qwen_strip6))"

definition qwen_isUserMessage :: "node \<Rightarrow> bool" where
  "qwen_isUserMessage n \<longleftrightarrow> ''user-message'' \<in> set (classList n)"

definition qwen_isAssistantMessage :: "node \<Rightarrow> path \<Rightarrow> bool" where
  "qwen_isAssistantMessage d msgEl \<longleftrightarrow>
     (case node_at d msgEl of
        None \<Rightarrow> False
      | Some n \<Rightarrow>
          (''response-meesage-container'' \<in> set (classList n) \<or>
           ''response-message-container'' \<in> set (classList n)) \<or>
          querySelector d msgEl
            [[[Sel_class ''response-message-body'']], [[Sel_class ''markdown-content-container'']],
             [[Sel_class ''text-response-render-container'']]] \<noteq> None)"

text \<open>
  The body of the \<^verbatim>\<open>forEach\<close> callback on the state \<open>(messages, order, seen)\<close>;
  an early return leaves the state as it is.
\<close>

definition qwen_step ::
  "node \<Rightarrow> (nat \<Rightarrow> int) \<Rightarrow> path \<Rightarrow> message list \<times> nat \<times> string list
     \<Rightarrow> message list \<times> nat \<times> string list" where
  "qwen_step d now msgEl st =
     (case st of (messages, order, seen) \<Rightarrow>
      (case node_at d msgEl of
         None \<Rightarrow> st
       | Some n \<Rightarrow>
          (let msgId = element_id n in
           if msgId = [] \<or> msgId \<in> set seen then st
           else if includes_str msgId ''input-container'' \<or> includes_str msgId ''button-''
                   \<or> includes_str msgId ''language'' then st
           else (let isUserMessage = qwen_isUserMessage n;
                     isAssistantMessage = qwen_isAssistantMessage d msgEl in
                 if \<not> isUserMessage \<and> \<not> isAssistantMessage then st
                 else (let seen' = seen @ [msgId];
                           r = (if isUserMessage then ''user'' else ''assistant'');
                           c = (if isUserMessage then qwen_user_content d msgEl
                                else qwen_assistant_content d msgEl) in
                       if length c < 1 then (messages, order, seen')
                       else (messages @
                               [\<lparr>msg_id = make_id ''qwen'' r order c,
                                 role = r,
                                 content = take 200 c,
                                 fullContent = c,
                                 element = msgEl,
                                 timestamp = now (length messages),
                                 msg_order = Some order\<rparr>],
                             Suc order, seen'))))))"

text \<open>Reassign order based on sorted position.\<close>

fun reassign_order :: "nat \<Rightarrow> message list \<Rightarrow> message list" where
  "reassign_order idx [] = []"
| "reassign_order idx (msg # msgs) = msg\<lparr>msg_order := Some idx\<rparr> # reassign_order (Suc idx) msgs"

definition qwen_collect :: "node \<Rightarrow> (nat \<Rightarrow> int) \<Rightarrow> message list" where
  "qwen_collect d now =
     fst (foldl (\<lambda>st msgEl. qwen_step d now msgEl st) ([], 0, [])
            (document_querySelectorAll d [[[Sel_tag ''div'', Sel_prefix ''id'' ''message-'']]]))"

definition qwen_detectMessages :: "node \<Rightarrow> (nat \<Rightarrow> int) \<Rightarrow> message list" where
  "qwen_detectMessages d now = reassign_order 0 (sort_by_position element (qwen_collect d now))"

definition or_else :: "'a option \<Rightarrow> 'a option \<Rightarrow> 'a option" where
  "or_else a b = (case a of Some x \<Rightarrow> Some x | None \<Rightarrow> b)"

definition qwen_getContainer :: "node \<Rightarrow> path option" where
  "qwen_getContainer d =
     or_else (document_querySelector d [[[Sel_class ''chat-messages-container'']]])
    (or_else (document_querySelector d [[[Sel_contains ''class'' ''chat-messages'']]])
    (or_else (document_querySelector d [[[Sel_tag ''main'']]])
             (body d)))"


text \<open>
  \<^verbatim>\<open>isStreaming\<close>: an assistant message with a content container and a loading
  indicator.  (No operation of the body raises, so the \<^verbatim>\<open>catch\<close> is not reached.)
\<close>

definition qwen_isStreaming :: "node \<Rightarrow> bool" where
  "qwen_isStreaming d =
     list_ex (\<lambda>msg.
        querySelector d msg [[[Sel_id ''response-content-container'']],
                             [[Sel_class ''markdown-content-container'']]] \<noteq> None \<and>
        querySelector d msg [[[Sel_contains ''class'' ''loading'']],
                             [[Sel_contains ''class'' ''streaming'']],
                             [[Sel_eq ''aria-busy'' ''true'']]] \<noteq> None)
       (document_querySelectorAll d
          [[[Sel_tag ''div'', Sel_prefix ''id'' ''message-'',
             Sel_contains ''class'' ''response-meesage-container'']]])"


section \<open>DeepSeek strategy\<close>

text \<open>Container resolution inside \<^verbatim>\<open>detectMessages\<close>.\<close>

definition deepseek_container :: "node \<Rightarrow> path option" where
  "deepseek_container d =
     or_else (document_querySelector d [[[Sel_class ''ds-scroll-area'']]])
    (or_else (document_querySelector d [[[Sel_contains ''class'' ''ds-scroll-area'']]])
    (or_else (document_querySelector d [[[Sel_contains ''class'' ''_0f72b0b'']]])
    (or_else (document_querySelector d [[[Sel_tag ''main'']]])
             (body d))))"

fun first_nonempty :: "'a list list \<Rightarrow> 'a list" where
  "first_nonempty [] = []"
| "first_nonempty (xs # xss) = (if length xs = 0 then first_nonempty xss else xs)"

text \<open>Message aggregation with its fallbacks, in the order the source tries them.\<close>

definition deepseek_messageElements :: "node \<Rightarrow> path \<Rightarrow> path list" where
  "deepseek_messageElements d container =
     first_nonempty
       [querySelectorAll d container [[[Sel_class ''ds-message'']]],
        querySelectorAll d container [[[Sel_contains ''class'' ''ds-message'']]],
        document_querySelectorAll d [[[Sel_class ''ds-message'']]],
        document_querySelectorAll d [[[Sel_contains ''class'' ''ds-message'']]],
        querySelectorAll d container
          [[[Sel_class ''fbb737a4'']], [[Sel_contains ''class'' ''fbb737a4'']]],
        querySelectorAll d container
          [[[Sel_class ''_4f9bf79'']], [[Sel_contains ''class'' ''_4f9bf79'']],
           [[Sel_class ''_43c05b5'']], [[Sel_contains ''class'' ''_43c05b5'']]]]"

definition deepseek_assistantContainer :: "node \<Rightarrow> path \<Rightarrow> path option" where
  "deepseek_assistantContainer d msgEl =
     or_else (closest d msgEl [[[Sel_class ''_4f9bf79'']]])
    (or_else (closest d msgEl [[[Sel_contains ''class'' ''_4f9bf79'']]])
    (or_else (closest d msgEl [[[Sel_class ''_43c05b5'']]])
             (closest d msgEl [[[Sel_contains ''class'' ''_43c05b5'']]])))"

text \<open>Role classification; \<open>None\<close> is the role \<^verbatim>\<open>null\<close>.\<close>

definition deepseek_classify :: "node \<Rightarrow> path \<Rightarrow> string option \<times> string" where
  "deepseek_classify d msgEl =
     (case or_else (querySelector d msgEl [[[Sel_class ''fbb737a4'']]])
                   (querySelector d msgEl [[[Sel_contains ''class'' ''fbb737a4'']]]) of
        Some userContent \<Rightarrow> (Some ''user'', trim (text_at d userContent))
      | None \<Rightarrow>
         (case or_else (querySelector d msgEl [[[Sel_class ''ds-markdown'']]])
                       (querySelector d msgEl [[[Sel_contains ''class'' ''ds-markdown'']]]) of
            Some markdownContent \<Rightarrow> (Some ''assistant'', trim (text_at d markdownContent))
          | None \<Rightarrow>
              if deepseek_assistantContainer d msgEl \<noteq> None
              then (Some ''assistant'', trim (text_at d msgEl))
              else if (case node_at d msgEl of
                         Some n \<Rightarrow> includes_str (className n) ''ds-markdown''
                       | None \<Rightarrow> False)
                      \<or> querySelector d msgEl [[[Sel_contains ''class'' ''markdown'']]] \<noteq> None
              then (Some ''assistant'', trim (text_at d msgEl))
              else (None, [])))"

definition deepseek_message ::
  "node \<Rightarrow> (nat \<Rightarrow> int) \<Rightarrow> path \<Rightarrow> nat \<Rightarrow> nat \<Rightarrow> message option" where
  "deepseek_message d now msgEl index messageOrder =
     (case deepseek_classify d msgEl of
        (r, c0) \<Rightarrow>
          (let c = (if c0 \<noteq> [] then trim (collapse_ws c0) else c0) in
           case r of
             None \<Rightarrow> None
           | Some r' \<Rightarrow>
               if length c < 1 then None
               else Some \<lparr>msg_id = make_id ''deepseek'' r' index c,
                          role = r',
                          content = take 200 c,
                          fullContent = c,
                          element =
                            (if r' = ''assistant''
                             then (case deepseek_assistantContainer d msgEl of
                                     Some assistantContainer \<Rightarrow> assistantContainer
                                   | None \<Rightarrow> msgEl)
                             else msgEl),
                          timestamp = now messageOrder,
                          msg_order = Some messageOrder\<rparr>))"

fun deepseek_forEach ::
  "node \<Rightarrow> (nat \<Rightarrow> int) \<Rightarrow> path list \<Rightarrow> nat \<Rightarrow> message list \<times> nat \<Rightarrow> message list \<times> nat" where
  "deepseek_forEach d now [] index st = st"
| "deepseek_forEach d now (msgEl # els) index (newMessages, messageOrder) =
     deepseek_forEach d now els (Suc index)
       (case deepseek_message d now msgEl index messageOrder of
          Some m \<Rightarrow> (newMessages @ [m], Suc messageOrder)
        | None \<Rightarrow> (newMessages, messageOrder))"

text \<open>
  When \<^verbatim>\<open>document.body\<close> is the last resort and is \<^verbatim>\<open>null\<close>, the first query on
  the container raises and the outer \<^verbatim>\<open>catch\<close> returns the empty array.
\<close>

definition deepseek_detectMessages :: "node \<Rightarrow> (nat \<Rightarrow> int) \<Rightarrow> message list" where
  "deepseek_detectMessages d now =
     (case deepseek_container d of
        None \<Rightarrow> []
      | Some container \<Rightarrow>
          fst (deepseek_forEach d now
                 (sort_by_position (\<lambda>p. p) (deepseek_messageElements d container)) 0 ([], 0)))"

text \<open>
  \<^verbatim>\<open>getContainer\<close> has no \<^verbatim>\<open>try\<close>: reading \<^verbatim>\<open>commonParent.contains\<close> of
  \<^verbatim>\<open>null\<close> raises a TypeError to the caller.
\<close>

datatype js_error = TypeError

definition parentElement :: "path \<Rightarrow> path option" where
  "parentElement p = (if p = [] then None else Some (butlast p))"

text \<open>\<^verbatim>\<open>a.contains(b)\<close>\<close>

definition contains :: "path \<Rightarrow> path \<Rightarrow> bool" where
  "contains a b \<longleftrightarrow> take (length a) b = a"

text \<open>
  The inner \<^verbatim>\<open>while\<close> for a non-null \<open>commonParent\<close>: \<open>chain\<close> is
  \<open>current\<close> with its ancestors, the result the value of \<open>current\<close> after the loop.
\<close>

fun walk_up :: "path \<Rightarrow> path list \<Rightarrow> path option" where
  "walk_up commonParent [] = None"
| "walk_up commonParent (current # chain) =
     (if current = commonParent \<or> contains commonParent current then Some current
      else walk_up commonParent chain)"

fun common_ancestor :: "path option \<Rightarrow> path list \<Rightarrow> js_error + path option" where
  "common_ancestor commonParent [] = Inr commonParent"
| "common_ancestor None (t # ts) = Inl TypeError"
| "common_ancestor (Some cp) (t # ts) =
     common_ancestor
       (if walk_up cp (t # ancestors t) = Some cp then parentElement cp else Some cp) ts"

definition deepseek_getContainer :: "node \<Rightarrow> js_error + path option" where
  "deepseek_getContainer d =
     (case or_else (document_querySelector d [[[Sel_class ''ds-scroll-area'']]])
          (or_else (document_querySelector d [[[Sel_contains ''class'' ''ds-scroll-area'']]])
                   (document_querySelector d [[[Sel_contains ''class'' ''_0f72b0b'']]])) of
        Some container \<Rightarrow> Inr (Some container)
      | None \<Rightarrow>
         (case document_querySelectorAll d [[[Sel_class ''ds-message'']]] of
            [] \<Rightarrow> Inr (or_else (document_querySelector d [[[Sel_tag ''main'']]]) (body d))
          | t0 # ts \<Rightarrow>
             (case common_ancestor (parentElement t0) (take 4 ts) of
                Inl e \<Rightarrow> Inl e
              | Inr commonParent \<Rightarrow>
                  Inr (or_else commonParent
                      (or_else (document_querySelector d [[[Sel_tag ''main'']]]) (body d))))))"

definition geometry_at :: "node \<Rightarrow> path \<Rightarrow> geometry option" where
  "geometry_at d p = (case node_at d p of Some n \<Rightarrow> geometry_of n | None \<Rightarrow> None)"

text \<open>An indicator that is rendered: non-empty rectangle, displayed, visible.\<close>

definition rendered :: "geometry \<Rightarrow> bool" where
  "rendered g \<longleftrightarrow> rect_width g > 0 \<and> rect_height g > 0 \<and> display g \<noteq> ''none''
     \<and> visibility g \<noteq> ''hidden''"

text \<open>\<open>innerHeight\<close> is \<^verbatim>\<open>window.innerHeight\<close>.\<close>

definition deepseek_isStreaming :: "int \<Rightarrow> node \<Rightarrow> bool" where
  "deepseek_isStreaming innerHeight d =
     list_ex (\<lambda>indicator.
        case geometry_at d indicator of
          None \<Rightarrow> False
        | Some g \<Rightarrow> rendered g \<and> rect_top g < innerHeight + 500 \<and> rect_bottom g > - 500)
       (document_querySelectorAll d
          [[[Sel_contains ''class'' ''streaming'']], [[Sel_contains ''class'' ''typing'']],
           [[Sel_contains ''class'' ''loading'']], [[Sel_contains ''class'' ''generating'']]])"


section \<open>Claude strategy\<close>

text \<open>Container resolution inside \<^verbatim>\<open>detectMessages\<close>.\<close>

definition claude_container :: "node \<Rightarrow> path option" where
  "claude_container d =
     or_else (document_querySelector d [[[Sel_eq ''data-testid'' ''conversation-turn-list'']]])
    (or_else (document_querySelector d [[[Sel_tag ''main'']]])
    (or_else (document_querySelector d [[[Sel_contains ''class'' ''conversation'']]])
             (body d)))"

definition claude_getContainer :: "node \<Rightarrow> path option" where
  "claude_getContainer d =
     or_else (document_querySelector d [[[Sel_eq ''data-testid'' ''conversation-turn-list'']]])
    (or_else (document_querySelector d [[[Sel_tag ''main'']]])
             (body d))"

text \<open>User message detection.\<close>

definition claude_userElements :: "node \<Rightarrow> path \<Rightarrow> path list" where
  "claude_userElements d container =
     first_nonempty
       [querySelectorAll d container [[[Sel_eq ''data-testid'' ''user-message'']]],
        document_querySelectorAll d [[[Sel_eq ''data-testid'' ''user-message'']]],
        querySelectorAll d container [[[Sel_eq ''data-testid'' ''chat-user-message-content'']]],
        document_querySelectorAll d [[[Sel_eq ''data-testid'' ''chat-user-message-content'']]]]"

text \<open>\<^verbatim>\<open>el.children\<close> and the element siblings after an element.\<close>

definition children :: "node \<Rightarrow> path \<Rightarrow> path list" where
  "children d p =
     (case node_at d p of
        Some n \<Rightarrow>
          map (\<lambda>i. p @ [i])
            (filter (\<lambda>i. is_element (childNodes n ! i)) [0..<length (childNodes n)])
      | None \<Rightarrow> [])"

definition nextElementSiblings :: "node \<Rightarrow> path \<Rightarrow> path list" where
  "nextElementSiblings d p =
     (case parentElement p of
        None \<Rightarrow> []
      | Some parent \<Rightarrow> filter (\<lambda>q. last p < last q) (children d parent))"

definition assistantSelectors :: "selector list" where
  "assistantSelectors =
     [[[[Sel_eq ''data-testid'' ''chat-assistant-message-content'']]],
      [[[Sel_eq ''data-testid'' ''assistant-message'']]],
      [[[Sel_class ''assistant-message'']]],
      [[[Sel_eq ''data-role'' ''assistant'']]],
      [[[Sel_tag ''div'', Sel_contains ''class'' ''assistant'']]],
      [[[Sel_class ''claude-response'']]],
      [[[Sel_tag ''div'', Sel_contains ''class'' ''claude'']]],
      [[[Sel_tag ''div'', Sel_contains ''class'' ''response'']]]]"

text \<open>\<^verbatim>\<open>if (!assistantBlocks.includes(b)) assistantBlocks.push(b)\<close>, for each \<open>b\<close>.\<close>

definition push_new :: "path list \<Rightarrow> path list \<Rightarrow> path list" where
  "push_new assistantBlocks bs =
     foldl (\<lambda>acc b. if b \<in> set acc then acc else acc @ [b]) assistantBlocks bs"

definition lower_class :: "node \<Rightarrow> path \<Rightarrow> string" where
  "lower_class d p = (case node_at d p of Some n \<Rightarrow> toLowerCase (className n) | None \<Rightarrow> [])"

definition offsetHeight_at :: "node \<Rightarrow> path \<Rightarrow> int" where
  "offsetHeight_at d p = (case geometry_at d p of Some g \<Rightarrow> offsetHeight g | None \<Rightarrow> 0)"

text \<open>
  The fallback test on a sibling: long enough text, tall enough, no user or human
  class.
\<close>

definition sibling_is_assistant :: "node \<Rightarrow> path \<Rightarrow> bool" where
  "sibling_is_assistant d sibling \<longleftrightarrow>
     length (trim (text_at d sibling)) > 20 \<and> offsetHeight_at d sibling > 30 \<and>
     \<not> includes_str (lower_class d sibling) ''user'' \<and>
     \<not> includes_str (lower_class d sibling) ''human''"

text \<open>The loop over the next siblings of the parent; it stops at a user message.\<close>

fun inspect_siblings :: "node \<Rightarrow> path list \<Rightarrow> path list \<Rightarrow> path list \<Rightarrow> path list" where
  "inspect_siblings d userElements [] assistantBlocks = assistantBlocks"
| "inspect_siblings d userElements (sibling # rest) assistantBlocks =
     (if sibling \<in> set userElements then assistantBlocks
      else inspect_siblings d userElements rest
             (let blocks1 = foldl (\<lambda>acc selector. push_new acc (querySelectorAll d sibling selector))
                              assistantBlocks assistantSelectors
              in if sibling_is_assistant d sibling \<and> sibling \<notin> set userElements
                 then push_new blocks1 [sibling] else blocks1))"

text \<open>The loop over the direct next siblings of the current element.\<close>

fun inspect_next :: "node \<Rightarrow> path list \<Rightarrow> path list \<Rightarrow> path list \<Rightarrow> path list" where
  "inspect_next d userElements [] assistantBlocks = assistantBlocks"
| "inspect_next d userElements (nextSibling # rest) assistantBlocks =
     (if nextSibling \<in> set userElements then assistantBlocks
      else inspect_next d userElements rest
             (if sibling_is_assistant d nextSibling
              then push_new assistantBlocks [nextSibling] else assistantBlocks))"

text \<open>
  Heuristic A, sibling traversal.  \<open>fuel\<close> is \<^verbatim>\<open>maxDepth - depth\<close>; every
  iteration starts with no block, since the loop ends as soon as one is found.
\<close>

fun heuristicA :: "node \<Rightarrow> path list \<Rightarrow> path \<Rightarrow> nat \<Rightarrow> path list" where
  "heuristicA d userElements current 0 = []"
| "heuristicA d userElements current (Suc fuel) =
     (case parentElement current of
        None \<Rightarrow> []
      | Some parent \<Rightarrow>
          (let parentSiblings =
                 (case parentElement parent of Some gp \<Rightarrow> children d gp | None \<Rightarrow> []);
               start = (case find_index (\<lambda>x. x = parent) parentSiblings of
                          Some parentIndex \<Rightarrow> Suc parentIndex | None \<Rightarrow> 0);
               blocks1 = inspect_siblings d userElements (take 4 (drop start parentSiblings)) [];
               blocks2 = inspect_next d userElements (take 10 (nextElementSiblings d current))
                           blocks1
           in if length blocks2 > 0 then blocks2
              else heuristicA d userElements parent fuel))"

definition has_assistant_class :: "string \<Rightarrow> bool" where
  "has_assistant_class c \<longleftrightarrow>
     includes_str c ''assistant'' \<or> includes_str c ''claude'' \<or> includes_str c ''response''"

definition spatial_disclaimer :: "regex list" where
  "spatial_disclaimer =
     [\<lparr>atoms = [Lit ''claude can make mistakes''], anchored = True, global = False\<rparr>,
      \<lparr>atoms = [Lit ''please double-check''], anchored = True, global = False\<rparr>,
      \<lparr>atoms = [Lit ''pondering''], anchored = True, global = False\<rparr>]"

text \<open>
  Heuristic B, spatial search: whether the candidate \<open>el\<close> is pushed, for the
  rectangle of the user message and of the next user message (if any).
\<close>

definition spatial_candidate :: "node \<Rightarrow> path list \<Rightarrow> geometry \<Rightarrow> geometry option \<Rightarrow> path \<Rightarrow> bool" where
  "spatial_candidate d userElements userRect nextUserRect el =
     (if el \<in> set userElements \<or> closest d el [[[Sel_eq ''data-testid'' ''user-message'']]] \<noteq> None
      then False
      else (case geometry_at d el of
              None \<Rightarrow> False
            | Some elRect \<Rightarrow>
               if rect_top elRect \<le> rect_bottom userRect then False
               else if (case nextUserRect of Some nr \<Rightarrow> rect_top elRect \<ge> rect_top nr | None \<Rightarrow> False)
               then False
               else (let text = trim (text_at d el) in
                     if length text < 20 \<or> offsetHeight elRect < 30 then False
                     else (let classList = lower_class d el;
                               hasAssistantClass = has_assistant_class classList \<or> includes_str classList ''ai'';
                               parentHasAssistantClass =
                                 list_ex (\<lambda>parent. has_assistant_class (lower_class d parent))
                                   (take 5 (ancestors el))
                           in if hasAssistantClass \<or> parentHasAssistantClass then True
                              else rect_top elRect > rect_bottom userRect + 50 \<and>
                                   (case nextUserRect of
                                      Some nr \<Rightarrow> rect_bottom elRect < rect_top nr - 50
                                    | None \<Rightarrow> True) \<and>
                                   (case node_at d el of Some n \<Rightarrow> tagName n = ''div'' | None \<Rightarrow> False) \<and>
                                   closest d el [[[Sel_tag ''button'']], [[Sel_tag ''input'']],
                                                 [[Sel_tag ''form'']], [[Sel_tag ''nav'']],
                                                 [[Sel_tag ''header'']], [[Sel_tag ''footer'']]] = None \<and>
                                   \<not> (list_ex (\<lambda>re. re_test re text) spatial_disclaimer \<and> length text < 100) \<and>
                                   length text > 30))))"

definition heuristicB :: "node \<Rightarrow> path list \<Rightarrow> path \<Rightarrow> path list" where
  "heuristicB d userElements userEl =
     (case geometry_at d userEl of
        None \<Rightarrow> []
      | Some userRect \<Rightarrow>
          (let nextUserRect =
                 (case find_index (\<lambda>x. x = userEl) userElements of
                    Some userIndex \<Rightarrow>
                      if Suc userIndex < length userElements
                      then geometry_at d (userElements ! Suc userIndex) else None
                  | None \<Rightarrow> None);
               candidates = document_querySelectorAll d
                 [[[Sel_tag ''div'', Sel_contains ''class'' ''Message'']],
                  [[Sel_tag ''div'', Sel_contains ''class'' ''message'']],
                  [[Sel_tag ''div'', Sel_contains ''class'' ''Content'']],
                  [[Sel_tag ''div'', Sel_contains ''class'' ''content'']]]
           in push_new [] (filter (spatial_candidate d userElements userRect nextUserRect) candidates)))"

text \<open>The assistant blocks of one user message, sorted by visual order (a stable sort).\<close>

definition rect_top_at :: "node \<Rightarrow> path \<Rightarrow> int" where
  "rect_top_at d p = (case geometry_at d p of Some g \<Rightarrow> rect_top g | None \<Rightarrow> 0)"

definition assistantBlocks :: "node \<Rightarrow> path list \<Rightarrow> path \<Rightarrow> path list" where
  "assistantBlocks d userElements userEl =
     (let a = heuristicA d userElements userEl 10;
          blocks = (if length a = 0 then heuristicB d userElements userEl else a)
      in sort_key (rect_top_at d) blocks)"

text \<open>Process user message.\<close>

definition claude_user :: "node \<Rightarrow> (nat \<Rightarrow> int) \<Rightarrow> path \<Rightarrow> nat \<Rightarrow> nat \<Rightarrow> message option" where
  "claude_user d now userEl userIndex messageOrder =
     (let userContent = collapse_ws (trim (text_at d userEl)) in
      if length userContent \<ge> 1
      then Some \<lparr>msg_id = make_id ''claude'' ''user'' userIndex userContent,
                 role = ''user'',
                 content = take 200 userContent,
                 fullContent = userContent,
                 element = userEl,
                 timestamp = now messageOrder,
                 msg_order = Some messageOrder\<rparr>
      else None)"

text \<open>
  Response aggregation and cleanup for the sorted blocks of one turn; the record is
  anchored to the first block.
\<close>

definition claude_assistant ::
  "node \<Rightarrow> (nat \<Rightarrow> int) \<Rightarrow> path list \<Rightarrow> nat \<Rightarrow> nat \<Rightarrow> message option" where
  "claude_assistant d now blocks userIndex messageOrder =
     (case blocks of
        [] \<Rightarrow> None
      | firstBlock # _ \<Rightarrow>
          (let c = combinedContent (map (text_at d) blocks) in
           if turn_accepted c
           then Some \<lparr>msg_id = make_id ''claude'' ''assistant'' userIndex c,
                      role = ''assistant'',
                      content = take 200 c,
                      fullContent = c,
                      element = firstBlock,
                      timestamp = now messageOrder,
                      msg_order = Some messageOrder\<rparr>
           else None))"

definition push_message :: "message option \<Rightarrow> message list \<times> nat \<Rightarrow> message list \<times> nat" where
  "push_message m st =
     (case m of
        Some r \<Rightarrow> (fst st @ [r], Suc (snd st))
      | None \<Rightarrow> st)"

fun claude_forEach ::
  "node \<Rightarrow> (nat \<Rightarrow> int) \<Rightarrow> path list \<Rightarrow> path list \<Rightarrow> nat \<Rightarrow> message list \<times> nat
     \<Rightarrow> message list \<times> nat" where
  "claude_forEach d now userElements [] userIndex st = st"
| "claude_forEach d now userElements (userEl # rest) userIndex st =
     (let st1 = push_message (claude_user d now userEl userIndex (snd st)) st;
          st2 = push_message
                  (claude_assistant d now (assistantBlocks d userElements userEl) userIndex (snd st1))
                  st1
      in claude_forEach d now userElements rest (Suc userIndex) st2)"

definition claude_detectMessages :: "node \<Rightarrow> (nat \<Rightarrow> int) \<Rightarrow> message list" where
  "claude_detectMessages d now =
     (case claude_container d of
        None \<Rightarrow> []
      | Some container \<Rightarrow>
          (let userElements = claude_userElements d container in
           fst (claude_forEach d now userElements userElements 0 ([], 0))))"


text \<open>
  \<^verbatim>\<open>isStreaming\<close>: visible loading indicators, incomplete content below the last
  user message, or a thinking phrase just above the input area.
\<close>

definition starts_thinking :: "regex list" where
  "starts_thinking =
     [\<lparr>atoms = [Lit ''pondering''], anchored = True, global = False\<rparr>,
      \<lparr>atoms = [Lit ''stand by''], anchored = True, global = False\<rparr>,
      \<lparr>atoms = [Lit ''thinking''], anchored = True, global = False\<rparr>,
      \<lparr>atoms = [Lit ''generating''], anchored = True, global = False\<rparr>]"

definition mentions_thinking :: "regex list" where
  "mentions_thinking =
     [\<lparr>atoms = [Lit ''pondering''], anchored = False, global = False\<rparr>,
      \<lparr>atoms = [Lit ''stand by''], anchored = False, global = False\<rparr>,
      \<lparr>atoms = [Lit ''thinking''], anchored = False, global = False\<rparr>,
      \<lparr>atoms = [Lit ''generating''], anchored = False, global = False\<rparr>]"

definition last_of :: "'a list \<Rightarrow> 'a option" where
  "last_of xs = (case rev xs of [] \<Rightarrow> None | x # _ \<Rightarrow> Some x)"

definition claude_isStreaming :: "int \<Rightarrow> node \<Rightarrow> bool" where
  "claude_isStreaming innerHeight d =
     (let allDivs = document_querySelectorAll d [[[Sel_tag ''div'']]];
          visible_indicator =
            list_ex (\<lambda>spinner.
               case geometry_at d spinner of
                 None \<Rightarrow> False
               | Some rect \<Rightarrow> rendered rect \<and> rect_top rect < innerHeight + 500)
              (document_querySelectorAll d
                 [[[Sel_contains ''class'' ''spinner'']], [[Sel_contains ''class'' ''loading'']],
                  [[Sel_contains ''class'' ''thinking'']],
                  [[Sel_contains ''aria-label'' ''thinking'']],
                  [[Sel_contains ''aria-label'' ''generating'']]]);
          incomplete_content =
            (case last_of (document_querySelectorAll d [[[Sel_eq ''data-testid'' ''user-message'']]]) of
               None \<Rightarrow> False
             | Some lastUserMsg \<Rightarrow>
                (case geometry_at d lastUserMsg of
                   None \<Rightarrow> False
                 | Some lastUserRect \<Rightarrow>
                     rect_top lastUserRect < innerHeight + 1000 \<and>
                     list_ex (\<lambda>dv.
                        case geometry_at d dv of
                          None \<Rightarrow> False
                        | Some divRect \<Rightarrow>
                            rect_top divRect > rect_bottom lastUserRect \<and>
                            rect_top divRect < rect_bottom lastUserRect + 300 \<and>
                            rect_width divRect > 0 \<and> rect_height divRect > 0 \<and>
                            (let text = trim (text_at d dv) in
                             text \<noteq> [] \<and>
                             ((endsWith text ''...'' \<and> length text < 200) \<or>
                              (length text < 50 \<and> list_ex (\<lambda>re. re_test re text) starts_thinking))))
                       allDivs));
          input_generation =
            (case document_querySelector d
                    [[[Sel_eq ''data-testid'' ''chat-input'']], [[Sel_tag ''textarea'']],
                     [[Sel_tag ''input'', Sel_eq ''type'' ''text'']]] of
               None \<Rightarrow> False
             | Some inputArea \<Rightarrow>
                (case geometry_at d inputArea of
                   None \<Rightarrow> False
                 | Some inputRect \<Rightarrow>
                     rect_top inputRect < innerHeight \<and>
                     list_ex (\<lambda>dv.
                        case geometry_at d dv of
                          None \<Rightarrow> False
                        | Some divRect \<Rightarrow>
                            rect_top divRect < rect_top inputRect \<and>
                            rect_bottom divRect > rect_top inputRect - 200 \<and>
                            (let text = trim (text_at d dv) in
                             text \<noteq> [] \<and> length text < 100 \<and>
                             list_ex (\<lambda>re. re_test re text) mentions_thinking))
                       allDivs))
      in visible_indicator \<or> incomplete_content \<or> input_generation)"


section \<open>The platform objects\<close>

text \<open>
  The four objects registered under \<^verbatim>\<open>window.HopperPlatform\<close>.  A property that
  an object does not define is \<open>None\<close>.  \<open>isActive\<close> takes
  \<^verbatim>\<open>window.location.hostname\<close>, \<open>isStreaming\<close> takes \<^verbatim>\<open>window.innerHeight\<close>.
  (\<^verbatim>\<open>getMessageSelector\<close> and \<^verbatim>\<open>normalizeUrl\<close> are not part of the model.)
\<close>

record platform =
  name :: string
  hostnames :: "string list"
  isActive :: "string \<Rightarrow> bool"
  detectMessages :: "node \<Rightarrow> (nat \<Rightarrow> int) \<Rightarrow> message list"
  getContainer :: "node \<Rightarrow> js_error + path option"
  isStreaming :: "(int \<Rightarrow> node \<Rightarrow> bool) option"
  getDebounceTime :: "int option"
  getStreamingWaitTime :: "int option"

definition chatgpt :: platform where
  "chatgpt =
     \<lparr>name = ''ChatGPT'',
      hostnames = [''chat.openai.com'', ''chatgpt.com''],
      isActive = (\<lambda>hostname. hostname \<in> set [''chat.openai.com'', ''chatgpt.com'']),
      detectMessages = chatgpt_detectMessages,
      getContainer = (\<lambda>d. Inr (chatgpt_getContainer d)),
      isStreaming = None,
      getDebounceTime = None,
      getStreamingWaitTime = None\<rparr>"

definition qwen :: platform where
  "qwen =
     \<lparr>name = ''Qwen'',
      hostnames = [''chat.qwen.ai'', ''qwen.ai''],
      isActive = (\<lambda>hostname. list_ex (\<lambda>host. includes_str hostname host) [''chat.qwen.ai'', ''qwen.ai'']),
      detectMessages = qwen_detectMessages,
      getContainer = (\<lambda>d. Inr (qwen_getContainer d)),
      isStreaming = Some (\<lambda>innerHeight. qwen_isStreaming),
      getDebounceTime = Some 400,
      getStreamingWaitTime = Some 1500\<rparr>"

definition claude :: platform where
  "claude =
     \<lparr>name = ''Claude'',
      hostnames = [''claude.ai''],
      isActive = (\<lambda>hostname. hostname \<in> set [''claude.ai'']),
      detectMessages = claude_detectMessages,
      getContainer = (\<lambda>d. Inr (claude_getContainer d)),
      isStreaming = Some claude_isStreaming,
      getDebounceTime = Some 1000,
      getStreamingWaitTime = Some 3000\<rparr>"

definition deepseek :: platform where
  "deepseek =
     \<lparr>name = ''DeepSeek'',
      hostnames = [''chat.deepseek.com'', ''www.deepseek.com'', ''deepseek.com''],
      isActive = (\<lambda>hostname. hostname \<in> set [''chat.deepseek.com'', ''www.deepseek.com'', ''deepseek.com'']),
      detectMessages = deepseek_detectMessages,
      getContainer = deepseek_getContainer,
      isStreaming = Some deepseek_isStreaming,
      getDebounceTime = Some 300,
      getStreamingWaitTime = Some 1500\<rparr>"


section \<open>Capability contract and example documents\<close>

text \<open>
  The capability contract of a platform object as far as streaming detection and the
  timing hints go: the object has an \<^verbatim>\<open>isStreaming\<close> operation (its result is a
  boolean by its type) and both timing constants, each within the observed range.
\<close>

definition full_contract :: "platform \<Rightarrow> bool" where
  "full_contract p \<longleftrightarrow>
     isStreaming p \<noteq> None \<and>
     (\<exists>ms. getDebounceTime p = Some ms \<and> 300 \<le> ms \<and> ms \<le> 1000) \<and>
     (\<exists>ms. getStreamingWaitTime p = Some ms \<and> 1500 \<le> ms \<and> ms \<le> 3000)"

text \<open>Documents on which the strategies are run below.\<close>

definition plain :: geometry where
  "plain = \<lparr>rect_top = 0, rect_bottom = 0, rect_width = 0, rect_height = 0, offsetHeight = 0,
             display = ''block'', visibility = ''visible''\<rparr>"

definition box :: "int \<Rightarrow> int \<Rightarrow> geometry" where
  "box t h = \<lparr>rect_top = t, rect_bottom = t + h, rect_width = 100, rect_height = h,
              offsetHeight = h, display = ''block'', visibility = ''visible''\<rparr>"

definition page :: "node list \<Rightarrow> node" where
  "page ks = Element ''html'' [] plain [Element ''head'' [] plain [], Element ''body'' [] plain ks]"

text \<open>
  One Claude turn: a user message and, in the next sibling of its parent, one
  assistant block with the given text.
\<close>

definition claude_turn_doc :: "string \<Rightarrow> node" where
  "claude_turn_doc txt =
     page [Element ''main'' [] plain
       [Element ''div'' [] plain
          [Element ''div'' [(''data-testid'', ''user-message'')] (box 0 20) [TextNode ''Is that right?'']],
        Element ''div'' [] plain
          [Element ''div'' [(''class'', ''assistant-message'')] (box 30 60) [TextNode txt]]]]"

text \<open>A ChatGPT conversation with a message whose author role is \<^verbatim>\<open>tool\<close>.\<close>

definition chatgpt_tool_doc :: node where
  "chatgpt_tool_doc =
     page [Element ''main'' [] plain
       [Element ''div'' [(''data-message-author-role'', ''tool'')] plain [TextNode ''result'']]]"


text \<open>
  What a consumer compares between two scans, and the shape of an identifier: the
  platform key, the role, a decimal index and the fingerprint of the full content
  (its first 50 characters, whitespace stripped, truncated to 20).
\<close>

definition visible :: "message \<Rightarrow> string \<times> string \<times> string" where
  "visible m = (msg_id m, role m, content m)"

definition id_derived :: "string \<Rightarrow> message \<Rightarrow> bool" where
  "id_derived platform m \<longleftrightarrow>
     (\<exists>index. msg_id m = ''msg-'' @ platform @ ''-'' @ role m @ ''-'' @ string_of_nat index @ ''-'' @
                  take 20 (strip_ws (take 50 (fullContent m)))) \<and>
     content m = take 200 (fullContent m)"


text \<open>A record without its capture time.\<close>

definition untimed :: "message \<Rightarrow> message" where
  "untimed m = m\<lparr>timestamp := 0\<rparr>"

definition untimed_state :: "message list \<times> nat \<Rightarrow> message list \<times> nat" where
  "untimed_state st = (map untimed (fst st), snd st)"

text \<open>One page with a message of each of the four kinds.\<close>

definition mixed_doc :: node where
  "mixed_doc =
     page [Element ''main'' [] plain
       [Element ''div'' [(''data-message-author-role'', ''user'')] plain [TextNode ''What is  six times seven?''],
        Element ''div'' [(''id'', ''message-1''), (''class'', ''user-message'')] plain [TextNode ''What is six times seven?''],
        Element ''div'' [(''class'', ''ds-message'')] plain
          [Element ''div'' [(''class'', ''ds-markdown'')] plain [TextNode ''The answer is 42.'']],
        Element ''div'' [(''data-testid'', ''user-message'')] plain [TextNode ''And seven times six?'']]]"


text \<open>
  Normalized text: every whitespace character is a single space that no whitespace
  follows, and the text neither starts nor ends with whitespace.
\<close>

fun single_spaced :: "string \<Rightarrow> bool" where
  "single_spaced [] = True"
| "single_spaced (c # cs) =
     ((js_space c \<longrightarrow> c = CHR '' '' \<and> (case cs of [] \<Rightarrow> True | c' # _ \<Rightarrow> \<not> js_space c')) \<and>
      single_spaced cs)"

definition trimmed :: "string \<Rightarrow> bool" where
  "trimmed s \<longleftrightarrow> s = [] \<or> (\<not> js_space (hd s) \<and> \<not> js_space (last s))"

definition normalized :: "string \<Rightarrow> bool" where
  "normalized s \<longleftrightarrow> single_spaced s \<and> trimmed s"


text \<open>What \<^verbatim>\<open>trim\<close> of a piece of normalized text is when it is not empty.\<close>

definition sentence_like :: "string \<Rightarrow> bool" where
  "sentence_like u \<longleftrightarrow> single_spaced u \<and> u \<noteq> [] \<and> \<not> js_space (hd u) \<and> \<not> js_space (last u)"


text \<open>A Qwen user message whose text has a run of three spaces.\<close>

definition qwen_spaces_doc :: node where
  "qwen_spaces_doc =
     page [Element ''div'' [(''id'', ''message-1''), (''class'', ''user-message'')] plain
             [TextNode ''question   one'']]"


text \<open>
  The state of a scan loop whose records are numbered: the counter is the number of
  records and the orders are \<open>0, 1, ...\<close> in the sequence of the records.
\<close>

definition numbered :: "message list \<times> nat \<Rightarrow> bool" where
  "numbered st \<longleftrightarrow> snd st = length (fst st) \<and> map msg_order (fst st) = map Some [0..<length (fst st)]"


text \<open>
  Conversations: two Qwen messages; one DeepSeek turn inside an assistant container;
  two Claude user messages in one container, followed by one response block.
\<close>

definition qwen_two_doc :: node where
  "qwen_two_doc =
     page [Element ''div'' [(''id'', ''message-1''), (''class'', ''user-message'')] plain
             [TextNode ''What is six times seven?''],
           Element ''div'' [(''id'', ''message-2''), (''class'', ''response-meesage-container'')] plain
             [Element ''div'' [(''class'', ''markdown-content-container'')] plain
                [TextNode ''The answer is 42.'']]]"

definition deepseek_turn_doc :: node where
  "deepseek_turn_doc =
     page [Element ''div'' [(''class'', ''_4f9bf79'')] plain
       [Element ''div'' [(''class'', ''ds-message'')] plain
          [Element ''div'' [(''class'', ''fbb737a4'')] plain [TextNode ''What is six times seven?'']],
        Element ''div'' [(''class'', ''ds-message'')] plain
          [Element ''div'' [(''class'', ''ds-markdown'')] plain [TextNode ''The answer is 42.'']]]]"

definition claude_two_users_doc :: node where
  "claude_two_users_doc =
     page [Element ''main'' [] plain
       [Element ''div'' [] plain
          [Element ''div'' [(''data-testid'', ''user-message'')] (box 0 20) [TextNode ''first question''],
           Element ''div'' [(''data-testid'', ''user-message'')] (box 100 20) [TextNode ''second question'']],
        Element ''div'' [(''class'', ''font-claude-message'')] (box 30 60)
          [TextNode ''The answer is 42. It really is the answer.'']]]"


text \<open>
  The candidates of a Qwen scan, and the conditions under which the last resort
  decides the content of a candidate: it carries a role signal, no specific content
  selector finds an element, and neither does the selector of the text wrapper (for a
  user message) or of the response body (for an assistant message).
\<close>

definition qwen_message_selector :: selector where
  "qwen_message_selector = [[[Sel_tag ''div'', Sel_prefix ''id'' ''message-'']]]"

definition qwen_last_resort :: "node \<Rightarrow> path \<Rightarrow> node \<Rightarrow> bool" where
  "qwen_last_resort d p n \<longleftrightarrow>
     (qwen_isUserMessage n \<and> first_found d p qwen_user_selectors = None \<and>
      querySelector d p [[[Sel_class ''user-message-text-content'']]] = None) \<or>
     (\<not> qwen_isUserMessage n \<and> qwen_isAssistantMessage d p \<and>
      first_found d p qwen_assistant_selectors = None \<and>
      querySelector d p [[[Sel_class ''response-message-body'']]] = None)"


text \<open>
  A Qwen conversation whose messages have none of the content containers but carry
  controls; a ChatGPT message with an empty descendant whose class contains
  \<^verbatim>\<open>message\<close>; a DeepSeek message element without any role signature.
\<close>

definition qwen_fallback_doc :: node where
  "qwen_fallback_doc =
     page [Element ''div'' [(''id'', ''message-1''), (''class'', ''user-message'')] plain
             [TextNode '' question one '',
              Element ''button'' [] plain [TextNode ''Copy'']],
           Element ''div'' [(''id'', ''message-2''), (''class'', ''response-meesage-container'')] plain
             [TextNode ''answer one'',
              Element ''div'' [(''class'', ''action-bar'')] plain [TextNode ''Like'']]]"

definition chatgpt_fallback_doc :: node where
  "chatgpt_fallback_doc =
     page [Element ''main'' [] plain
       [Element ''div'' [(''data-message-author-role'', ''assistant'')] plain
          [Element ''span'' [(''class'', ''message-marker'')] plain [],
           TextNode ''visible answer'']]]"

definition deepseek_plain_doc :: node where
  "deepseek_plain_doc =
     page [Element ''div'' [(''class'', ''ds-message'')] plain [TextNode ''visible answer'']]"


section \<open>Invariants of the scan loops\<close>

lemma push_message_all:
  assumes "list_all P (fst st)" and "\<And>r. m = Some r \<Longrightarrow> P r"
  shows "list_all P (fst (push_message m st))"
  using assms by (cases m) (simp_all add: push_message_def)

lemma claude_forEach_all:
  assumes "list_all P (fst st)"
    and "\<And>el i k m. claude_user d now el i k = Some m \<Longrightarrow> P m"
    and "\<And>bs i k m. claude_assistant d now bs i k = Some m \<Longrightarrow> P m"
  shows "list_all P (fst (claude_forEach d now us els i st))"
  using assms(1)
proof (induction els arbitrary: i st)
  case Nil
  then show ?case by simp
next
  case (Cons el els)
  have "list_all P (fst (push_message (claude_user d now el i (snd st)) st))"
    using Cons.prems assms(2) by (rule push_message_all)
  then have "list_all P (fst (push_message
      (claude_assistant d now (assistantBlocks d us el) i
         (snd (push_message (claude_user d now el i (snd st)) st)))
      (push_message (claude_user d now el i (snd st)) st)))"
    using assms(3) by (rule push_message_all)
  then show ?case using Cons.IH by (simp add: Let_def)
qed

lemma claude_detectMessages_all:
  assumes "\<And>el i k m. claude_user d now el i k = Some m \<Longrightarrow> P m"
    and "\<And>bs i k m. claude_assistant d now bs i k = Some m \<Longrightarrow> P m"
  shows "list_all P (claude_detectMessages d now)"
proof (cases "claude_container d")
  case None
  then show ?thesis by (simp add: claude_detectMessages_def)
next
  case (Some container)
  have "list_all P (fst (claude_forEach d now (claude_userElements d container)
                           (claude_userElements d container) 0 ([], 0)))"
    by (rule claude_forEach_all) (simp_all add: assms)
  with Some show ?thesis by (simp add: claude_detectMessages_def Let_def)
qed

lemma chatgpt_forEach_all:
  assumes "list_all P acc"
    and "\<And>el i k m. chatgpt_message d now el i k = Some m \<Longrightarrow> P m"
  shows "list_all P (chatgpt_forEach d now els i acc)"
  using assms(1)
proof (induction els arbitrary: i acc)
  case Nil
  then show ?case by simp
next
  case (Cons el els)
  then show ?case using assms(2) by (auto split: option.splits)
qed

lemma chatgpt_detectMessages_all:
  assumes "\<And>el i k m. chatgpt_message d now el i k = Some m \<Longrightarrow> P m"
  shows "list_all P (chatgpt_detectMessages d now)"
  unfolding chatgpt_detectMessages_def
  by (auto split: option.splits intro!: chatgpt_forEach_all assms)

lemma deepseek_forEach_all:
  assumes "list_all P (fst st)"
    and "\<And>el i k m. deepseek_message d now el i k = Some m \<Longrightarrow> P m"
  shows "list_all P (fst (deepseek_forEach d now els i st))"
  using assms(1)
proof (induction els arbitrary: i st)
  case Nil
  then show ?case by simp
next
  case (Cons el els)
  obtain ms k where st: "st = (ms, k)" by (cases st)
  show ?case using Cons assms(2) unfolding st
    by (auto split: option.splits)
qed

lemma deepseek_detectMessages_all:
  assumes "\<And>el i k m. deepseek_message d now el i k = Some m \<Longrightarrow> P m"
  shows "list_all P (deepseek_detectMessages d now)"
  unfolding deepseek_detectMessages_def
  by (auto split: option.splits intro!: deepseek_forEach_all assms)


section \<open>Claude: the laws of turn reconstruction\<close>

text \<open>
  C8.  Dedup law.  When the aggregator receives the block texts
  \<^verbatim>\<open>["The answer is 42.", "42."]\<close> in that order, no disclaimer is removed, the second
  block is shorter than 80% of the first and its lower-cased text is contained in the
  first one's, so the scan of the seen texts reports it as a substring and it is
  dropped; the surviving and the combined text is \<^verbatim>\<open>"The answer is 42."\<close>, which
  passes the final validation.
\<close>

theorem dedup_law:
  "blockTextsToUse (blockTexts [''The answer is 42.'', ''42.'']) = [''The answer is 42.'', ''42.''] \<and>
   5 * length (toLowerCase ''42.'') < 4 * length (toLowerCase ''The answer is 42.'') \<and>
   includes_str (toLowerCase ''The answer is 42.'') (toLowerCase ''42.'') \<and>
   scan_seen (toLowerCase ''42.'') [toLowerCase ''The answer is 42.''] [''The answer is 42.'']
     [toLowerCase ''The answer is 42.''] =
       (True, [''The answer is 42.''], [toLowerCase ''The answer is 42.'']) \<and>
   uniqueTexts (blockTextsToUse (blockTexts [''The answer is 42.'', ''42.''])) = [''The answer is 42.''] \<and>
   combinedContent [''The answer is 42.'', ''42.''] = ''The answer is 42.'' \<and>
   turn_accepted (combinedContent [''The answer is 42.'', ''42.''])"
  by code_simp

text \<open>
  C3, as stated.  A turn whose combined content is
  \<^verbatim>\<open>"Model can make mistakes. Please double-check responses."\<close> is under 150
  characters, but no disclaimer pattern matches it (the patterns spell
  \<^verbatim>\<open>claude can make mistakes\<close>): the assistant record is emitted.
\<close>

theorem disclaimer_law_counterexample:
  "combinedContent (map (text_at (claude_turn_doc ''Model can make mistakes. Please double-check responses.''))
       [[1, 0, 1, 0]]) = ''Model can make mistakes. Please double-check responses.'' \<and>
   length ''Model can make mistakes. Please double-check responses.'' < 150 \<and>
   \<not> isOnlyDisclaimer ''Model can make mistakes. Please double-check responses.'' \<and>
   claude_assistant (claude_turn_doc ''Model can make mistakes. Please double-check responses.'')
       (\<lambda>k. 0) [[1, 0, 1, 0]] 0 1 \<noteq> None \<and>
   map (\<lambda>m. (role m, fullContent m)) (claude_detectMessages
       (claude_turn_doc ''Model can make mistakes. Please double-check responses.'') (\<lambda>k. 0)) =
     [(''user'', ''Is that right?''),
      (''assistant'', ''Model can make mistakes. Please double-check responses.'')]"
  by code_simp

text \<open>
  C3, amended.  Disclaimer law: an assembled assistant turn whose combined content is
  \<^verbatim>\<open>"Claude can make mistakes. Please double-check responses."\<close> is rejected; no
  assistant record is emitted for that user turn.
\<close>

theorem disclaimer_law:
  assumes "combinedContent (map (text_at d) blocks) =
             ''Claude can make mistakes. Please double-check responses.''"
  shows "claude_assistant d now blocks userIndex messageOrder = None"
proof -
  have rejected: "\<not> turn_accepted ''Claude can make mistakes. Please double-check responses.''"
    by code_simp
  show ?thesis
  proof (cases blocks)
    case Nil
    then show ?thesis by (simp add: claude_assistant_def)
  next
    case (Cons b bs)
    with assms rejected show ?thesis by (simp add: claude_assistant_def Let_def)
  qed
qed

theorem disclaimer_law_witness:
  "combinedContent (map (text_at (claude_turn_doc ''Claude can make mistakes. Please double-check responses.''))
       [[1, 0, 1, 0]]) = ''Claude can make mistakes. Please double-check responses.'' \<and>
   claude_assistant (claude_turn_doc ''Claude can make mistakes. Please double-check responses.'')
       (\<lambda>k. 0) [[1, 0, 1, 0]] 0 1 = None \<and>
   map role (claude_detectMessages
       (claude_turn_doc ''Claude can make mistakes. Please double-check responses.'') (\<lambda>k. 0)) = [''user'']"
proof -
  have h: "combinedContent (map (text_at (claude_turn_doc ''Claude can make mistakes. Please double-check responses.''))
       [[1, 0, 1, 0]]) = ''Claude can make mistakes. Please double-check responses.''"
    by code_simp
  have d: "map role (claude_detectMessages
       (claude_turn_doc ''Claude can make mistakes. Please double-check responses.'') (\<lambda>k. 0)) = [''user'']"
    by code_simp
  from h d disclaimer_law [OF h] show ?thesis by blast
qed

text \<open>
  C10.  An inferred assistant turn is emitted only when its combined content has at
  least 10 characters: a record that is emitted has a \<open>fullContent\<close> of length 10 or
  more, a turn whose combined content is shorter (1 to 9 characters included) yields no
  record, and every assistant record of a scan has at least 10 characters.
\<close>

theorem assistant_min_length:
  "(claude_assistant d now blocks userIndex messageOrder = Some m \<longrightarrow> 10 \<le> length (fullContent m)) \<and>
   (length (combinedContent (map (text_at d) blocks)) < 10 \<longrightarrow>
      claude_assistant d now blocks userIndex messageOrder = None) \<and>
   (\<forall>r \<in> set (claude_detectMessages d now). role r = ''assistant'' \<longrightarrow> 10 \<le> length (fullContent r))"
proof -
  have a: "\<And>bs i k r. claude_assistant d now bs i k = Some r \<Longrightarrow> 10 \<le> length (fullContent r)"
    by (auto simp: claude_assistant_def turn_accepted_def Let_def split: list.splits if_splits)
  have u: "\<And>el i k r. claude_user d now el i k = Some r \<Longrightarrow> role r \<noteq> ''assistant''"
    by (auto simp: claude_user_def Let_def split: if_splits)
  have "list_all (\<lambda>r. role r = ''assistant'' \<longrightarrow> 10 \<le> length (fullContent r)) (claude_detectMessages d now)"
    by (rule claude_detectMessages_all) (use a u in auto)
  moreover have "length (combinedContent (map (text_at d) blocks)) < 10 \<longrightarrow>
      claude_assistant d now blocks userIndex messageOrder = None"
    by (auto simp: claude_assistant_def turn_accepted_def Let_def split: list.splits)
  ultimately show ?thesis using a by (auto simp: list_all_iff)
qed

theorem assistant_min_length_witness:
  "claude_assistant (claude_turn_doc ''Yes, that is right.'') (\<lambda>k. 0) [[1, 0, 1, 0]] 0 1 =
     Some \<lparr>msg_id = ''msg-claude-assistant-0-Yes,thatisright.'', role = ''assistant'',
            content = ''Yes, that is right.'', fullContent = ''Yes, that is right.'',
            element = [1, 0, 1, 0], timestamp = 0, msg_order = Some 1\<rparr> \<and>
   10 \<le> length ''Yes, that is right.'' \<and>
   combinedContent (map (text_at (claude_turn_doc ''Yes.'')) [[1, 0, 1, 0]]) = ''Yes.'' \<and>
   claude_assistant (claude_turn_doc ''Yes.'') (\<lambda>k. 0) [[1, 0, 1, 0]] 0 1 = None \<and>
   map role (claude_detectMessages (claude_turn_doc ''Yes.'') (\<lambda>k. 0)) = [''user''] \<and>
   map (\<lambda>r. (role r, length (fullContent r)))
     (claude_detectMessages (claude_turn_doc ''Yes, that is right.'') (\<lambda>k. 0)) =
       [(''user'', 14), (''assistant'', 19)]"
proof -
  have e: "claude_assistant (claude_turn_doc ''Yes, that is right.'') (\<lambda>k. 0) [[1, 0, 1, 0]] 0 1 =
     Some \<lparr>msg_id = ''msg-claude-assistant-0-Yes,thatisright.'', role = ''assistant'',
            content = ''Yes, that is right.'', fullContent = ''Yes, that is right.'',
            element = [1, 0, 1, 0], timestamp = 0, msg_order = Some 1\<rparr>"
    by code_simp
  have s: "combinedContent (map (text_at (claude_turn_doc ''Yes.'')) [[1, 0, 1, 0]]) = ''Yes.''"
    by code_simp
  have r1: "map role (claude_detectMessages (claude_turn_doc ''Yes.'') (\<lambda>k. 0)) = [''user'']"
    by code_simp
  have r2: "map (\<lambda>r. (role r, length (fullContent r)))
     (claude_detectMessages (claude_turn_doc ''Yes, that is right.'') (\<lambda>k. 0)) =
       [(''user'', 14), (''assistant'', 19)]"
    by code_simp
  have n: "claude_assistant (claude_turn_doc ''Yes.'') (\<lambda>k. 0) [[1, 0, 1, 0]] 0 1 = None"
    using assistant_min_length [of "claude_turn_doc ''Yes.''" "\<lambda>k. 0" "[[1, 0, 1, 0]]" 0 1] s
    by simp
  from e s r1 r2 n show ?thesis by simp
qed


section \<open>The capability contract\<close>

text \<open>
  C5, as stated.  The ChatGPT object defines neither \<^verbatim>\<open>isStreaming\<close> nor
  \<^verbatim>\<open>getDebounceTime\<close> nor \<^verbatim>\<open>getStreamingWaitTime\<close>.
\<close>

theorem contract_counterexample:
  "\<not> full_contract chatgpt \<and> isStreaming chatgpt = None \<and> getDebounceTime chatgpt = None \<and>
   getStreamingWaitTime chatgpt = None"
  by (simp add: full_contract_def chatgpt_def)

text \<open>
  C5, amended.  The Qwen, Claude and DeepSeek objects provide the streaming detection
  and both timing constants, the debounce constant within 300 to 1000 ms and the
  settle constant within 1500 to 3000 ms.
\<close>

theorem contract_of_three:
  "full_contract qwen \<and> full_contract claude \<and> full_contract deepseek"
  by (simp add: full_contract_def qwen_def claude_def deepseek_def)


section \<open>Container resolution\<close>

lemma or_else_eq_None: "or_else a b = None \<longleftrightarrow> a = None \<and> b = None"
  by (cases a) (simp_all add: or_else_def)

text \<open>
  C4, as stated.  For a document with a body and no \<^verbatim>\<open>main\<close> element the ChatGPT
  strategy resolves no container: \<^verbatim>\<open>getContainer\<close> returns \<^verbatim>\<open>null\<close> and
  \<^verbatim>\<open>detectMessages\<close> returns the empty array at its guard.
\<close>

theorem container_resolution_counterexample:
  "body (page []) = Some [1] \<and> chatgpt_getContainer (page []) = None \<and>
   getContainer chatgpt (page []) = Inr None \<and> chatgpt_detectMessages (page []) (\<lambda>k. 0) = []"
  by code_simp

text \<open>
  C4, amended.  For the Qwen, Claude and DeepSeek strategies, in every document that
  has a body, container resolution returns a node: the chain of selectors ends in
  \<^verbatim>\<open>document.body\<close>.  This holds for \<^verbatim>\<open>getContainer\<close> of Qwen and Claude, for
  the resolution inside \<^verbatim>\<open>detectMessages\<close> of Claude and DeepSeek, and for
  \<^verbatim>\<open>getContainer\<close> of DeepSeek whenever it returns.
\<close>

theorem container_resolution:
  assumes "body d = Some b"
  shows "(\<exists>p. qwen_getContainer d = Some p) \<and>
         (\<exists>p. claude_getContainer d = Some p) \<and>
         (\<exists>p. claude_container d = Some p) \<and>
         (\<exists>p. deepseek_container d = Some p) \<and>
         (\<forall>r. deepseek_getContainer d = Inr r \<longrightarrow> (\<exists>p. r = Some p))"
proof -
  have q: "qwen_getContainer d \<noteq> None"
    unfolding qwen_getContainer_def using assms by (simp add: or_else_eq_None)
  have c1: "claude_getContainer d \<noteq> None"
    unfolding claude_getContainer_def using assms by (simp add: or_else_eq_None)
  have c2: "claude_container d \<noteq> None"
    unfolding claude_container_def using assms by (simp add: or_else_eq_None)
  have d1: "deepseek_container d \<noteq> None"
    unfolding deepseek_container_def using assms by (simp add: or_else_eq_None)
  have fb: "or_else (document_querySelector d [[[Sel_tag ''main'']]]) (body d) \<noteq> None"
    using assms by (simp add: or_else_eq_None)
  have d2: "r \<noteq> None" if r: "deepseek_getContainer d = Inr r" for r
  proof (cases "or_else (document_querySelector d [[[Sel_class ''ds-scroll-area'']]])
          (or_else (document_querySelector d [[[Sel_contains ''class'' ''ds-scroll-area'']]])
                   (document_querySelector d [[[Sel_contains ''class'' ''_0f72b0b'']]]))")
    case (Some container)
    with r show ?thesis by (auto simp: deepseek_getContainer_def)
  next
    case None
    show ?thesis
    proof (cases "document_querySelectorAll d [[[Sel_class ''ds-message'']]]")
      case Nil
      with None r fb show ?thesis by (simp add: deepseek_getContainer_def)
    next
      case (Cons t0 ts)
      show ?thesis
      proof (cases "common_ancestor (parentElement t0) (take 4 ts)")
        case (Inl e)
        with None Cons r show ?thesis by (simp add: deepseek_getContainer_def)
      next
        case (Inr commonParent)
        with None Cons r have "r = or_else commonParent
            (or_else (document_querySelector d [[[Sel_tag ''main'']]]) (body d))"
          by (simp add: deepseek_getContainer_def)
        with fb show ?thesis by (simp add: or_else_eq_None)
      qed
    qed
  qed
  from q c1 c2 d1 d2 show ?thesis by auto
qed

theorem container_resolution_witness:
  "body (page []) = Some [1] \<and>
   qwen_getContainer (page []) = Some [1] \<and>
   claude_getContainer (page []) = Some [1] \<and>
   claude_container (page []) = Some [1] \<and>
   deepseek_container (page []) = Some [1] \<and>
   deepseek_getContainer (page []) = Inr (Some [1])"
proof -
  have b: "body (page []) = Some [1]" by code_simp
  have v: "qwen_getContainer (page []) = Some [1]" "claude_getContainer (page []) = Some [1]"
    "claude_container (page []) = Some [1]" "deepseek_container (page []) = Some [1]"
    "deepseek_getContainer (page []) = Inr (Some [1])"
    by code_simp+
  from container_resolution [OF b] b v show ?thesis by simp
qed

text \<open>
  \<^verbatim>\<open>getContainer\<close> of DeepSeek does raise when the root element itself is the
  first \<^verbatim>\<open>.ds-message\<close> and there is a second one.
\<close>

lemma deepseek_getContainer_raises:
  "deepseek_getContainer
     (Element ''html'' [(''class'', ''ds-message'')] plain
        [Element ''body'' [(''class'', ''ds-message'')] plain []]) = Inl TypeError"
  by code_simp

section \<open>Determinism of discovery\<close>

lemma chatgpt_message_untimed:
  "chatgpt_message d (\<lambda>k. 0) el i k' = map_option untimed (chatgpt_message d now el i k)"
  by (simp add: chatgpt_message_def untimed_def Let_def split: option.splits)

lemma chatgpt_forEach_untimed:
  "map untimed (chatgpt_forEach d now els i acc) =
   chatgpt_forEach d (\<lambda>k. 0) els i (map untimed acc)"
proof (induction els arbitrary: i acc)
  case Nil
  then show ?case by simp
next
  case (Cons el els)
  show ?case
    using chatgpt_message_untimed [of d el i "length acc" now "length acc"]
    by (cases "chatgpt_message d now el i (length acc)") (simp_all add: Cons.IH)
qed

lemma chatgpt_untimed:
  "map untimed (chatgpt_detectMessages d now) = chatgpt_detectMessages d (\<lambda>k. 0)"
  by (simp add: chatgpt_detectMessages_def chatgpt_forEach_untimed split: option.splits)

lemma deepseek_message_untimed:
  "deepseek_message d (\<lambda>k. 0) el i k = map_option untimed (deepseek_message d now el i k)"
  by (simp add: deepseek_message_def untimed_def Let_def split: option.splits prod.splits)

lemma deepseek_forEach_untimed:
  "deepseek_forEach d (\<lambda>k. 0) els i (map untimed ms, k) =
   (case deepseek_forEach d now els i (ms, k) of (ms', k') \<Rightarrow> (map untimed ms', k'))"
proof (induction els arbitrary: i ms k)
  case Nil
  then show ?case by simp
next
  case (Cons el els)
  show ?case
  proof (cases "deepseek_message d now el i k")
    case None
    then show ?thesis
      using deepseek_message_untimed [of d el i k now] Cons.IH [of "Suc i" ms k] by simp
  next
    case (Some a)
    then show ?thesis
      using deepseek_message_untimed [of d el i k now] Cons.IH [of "Suc i" "ms @ [a]" "Suc k"]
      by simp
  qed
qed

lemma deepseek_untimed:
  "map untimed (deepseek_detectMessages d now) = deepseek_detectMessages d (\<lambda>k. 0)"
proof (cases "deepseek_container d")
  case None
  then show ?thesis by (simp add: deepseek_detectMessages_def)
next
  case (Some c)
  show ?thesis
    using deepseek_forEach_untimed [of d "sort_by_position (\<lambda>p. p) (deepseek_messageElements d c)" 0 "[]" 0 now]
    by (cases "deepseek_forEach d now (sort_by_position (\<lambda>p. p) (deepseek_messageElements d c)) 0 ([], 0)")
       (simp add: deepseek_detectMessages_def Some)
qed

lemma claude_user_untimed:
  "claude_user d (\<lambda>k. 0) el i k = map_option untimed (claude_user d now el i k)"
  by (simp add: claude_user_def untimed_def Let_def)

lemma claude_assistant_untimed:
  "claude_assistant d (\<lambda>k. 0) bs i k = map_option untimed (claude_assistant d now bs i k)"
  by (simp add: claude_assistant_def untimed_def Let_def split: list.splits)

lemma push_message_untimed:
  "untimed_state (push_message m st) = push_message (map_option untimed m) (untimed_state st)"
  by (cases m) (simp_all add: push_message_def untimed_state_def)

lemma snd_push_message_untimed:
  "snd (push_message (map_option untimed m) (untimed_state st)) = snd (push_message m st)"
  by (cases m) (simp_all add: push_message_def untimed_state_def)

lemma claude_forEach_untimed:
  "untimed_state (claude_forEach d now us els i st) =
   claude_forEach d (\<lambda>k. 0) us els i (untimed_state st)"
proof (induction els arbitrary: i st)
  case Nil
  then show ?case by simp
next
  case (Cons el els)
  have s: "snd (untimed_state x) = snd x" for x by (simp add: untimed_state_def)
  show ?case
    by (simp add: Let_def Cons.IH push_message_untimed s snd_push_message_untimed
          claude_user_untimed [of d el i _ now] claude_assistant_untimed [of d _ i _ now])
qed

lemma claude_untimed:
  "map untimed (claude_detectMessages d now) = claude_detectMessages d (\<lambda>k. 0)"
proof (cases "claude_container d")
  case None
  then show ?thesis by (simp add: claude_detectMessages_def)
next
  case (Some c)
  have "fst (untimed_state x) = map untimed (fst x)" for x by (simp add: untimed_state_def)
  from this [symmetric] show ?thesis
    by (simp add: claude_detectMessages_def Some Let_def claude_forEach_untimed)
       (simp add: untimed_state_def)
qed


lemma qwen_step_cases:
  assumes "qwen_step d now el (ms, ord, seen) = (ms', ord', seen')"
  shows "(ms' = ms \<and> ord' = ord) \<or>
         (\<exists>r c. (r = ''user'' \<or> r = ''assistant'') \<and> c \<noteq> [] \<and> ord' = Suc ord \<and>
            ms' = ms @ [\<lparr>msg_id = make_id ''qwen'' r ord c, role = r, content = take 200 c,
                          fullContent = c, element = el, timestamp = now (length ms),
                          msg_order = Some ord\<rparr>])"
  using assms unfolding qwen_step_def
  by (auto simp: Let_def split: option.splits if_splits)

lemma qwen_fold_all:
  assumes "list_all P ms"
    and "\<And>el ord k r c. (r = ''user'' \<or> r = ''assistant'') \<Longrightarrow> c \<noteq> [] \<Longrightarrow>
           P \<lparr>msg_id = make_id ''qwen'' r ord c, role = r, content = take 200 c,
              fullContent = c, element = el, timestamp = now k, msg_order = Some ord\<rparr>"
  shows "list_all P (fst (foldl (\<lambda>st msgEl. qwen_step d now msgEl st) (ms, ord, seen) els))"
  using assms(1)
proof (induction els arbitrary: ms ord seen)
  case Nil
  then show ?case by simp
next
  case (Cons el els)
  obtain ms' ord' seen' where st: "qwen_step d now el (ms, ord, seen) = (ms', ord', seen')"
    by (cases "qwen_step d now el (ms, ord, seen)")
  from qwen_step_cases [OF st] Cons.prems assms(2) have "list_all P ms'" by auto
  from Cons.IH [OF this] show ?case by (simp add: st)
qed

lemma qwen_collect_all:
  assumes "\<And>el ord k r c. (r = ''user'' \<or> r = ''assistant'') \<Longrightarrow> c \<noteq> [] \<Longrightarrow>
           P \<lparr>msg_id = make_id ''qwen'' r ord c, role = r, content = take 200 c,
              fullContent = c, element = el, timestamp = now k, msg_order = Some ord\<rparr>"
  shows "list_all P (qwen_collect d now)"
  unfolding qwen_collect_def by (rule qwen_fold_all) (simp_all add: assms)

lemma set_insert_by_position: "set (insert_by_position pos x ys) = insert x (set ys)"
  by (induction ys) auto

lemma set_sort_by_position: "set (sort_by_position pos xs) = set xs"
  unfolding sort_by_position_def by (induction xs) (simp_all add: set_insert_by_position)

lemma length_insert_by_position: "length (insert_by_position pos x ys) = Suc (length ys)"
  by (induction ys) auto

lemma length_sort_by_position: "length (sort_by_position pos xs) = length xs"
  unfolding sort_by_position_def by (induction xs) (simp_all add: length_insert_by_position)

lemma reassign_order_all:
  assumes "list_all P ms" and "\<And>m i. P m \<Longrightarrow> P (m\<lparr>msg_order := Some i\<rparr>)"
  shows "list_all P (reassign_order k ms)"
  using assms(1) by (induction ms arbitrary: k) (simp_all add: assms(2))

lemma qwen_detectMessages_all:
  assumes "\<And>el ord k r c. (r = ''user'' \<or> r = ''assistant'') \<Longrightarrow> c \<noteq> [] \<Longrightarrow>
           P \<lparr>msg_id = make_id ''qwen'' r ord c, role = r, content = take 200 c,
              fullContent = c, element = el, timestamp = now k, msg_order = Some ord\<rparr>"
    and "\<And>m i. P m \<Longrightarrow> P (m\<lparr>msg_order := Some i\<rparr>)"
  shows "list_all P (qwen_detectMessages d now)"
proof -
  have "list_all P (qwen_collect d now)" by (rule qwen_collect_all) (rule assms(1))
  then have "list_all P (sort_by_position element (qwen_collect d now))"
    by (simp add: list_all_iff set_sort_by_position)
  then show ?thesis unfolding qwen_detectMessages_def by (rule reassign_order_all) (rule assms(2))
qed

lemma qwen_step_untimed:
  "qwen_step d (\<lambda>k. 0) el (map untimed ms, ord, seen) =
   (case qwen_step d now el (ms, ord, seen) of (ms', ord', seen') \<Rightarrow> (map untimed ms', ord', seen'))"
  unfolding qwen_step_def by (simp add: Let_def untimed_def split: option.splits)

lemma qwen_fold_untimed:
  "foldl (\<lambda>st msgEl. qwen_step d (\<lambda>k. 0) msgEl st) (map untimed ms, ord, seen) els =
   (case foldl (\<lambda>st msgEl. qwen_step d now msgEl st) (ms, ord, seen) els of
      (ms', ord', seen') \<Rightarrow> (map untimed ms', ord', seen'))"
proof (induction els arbitrary: ms ord seen)
  case Nil
  then show ?case by simp
next
  case (Cons el els)
  obtain ms' ord' seen' where st: "qwen_step d now el (ms, ord, seen) = (ms', ord', seen')"
    by (cases "qwen_step d now el (ms, ord, seen)")
  show ?case using Cons.IH [of ms' ord' seen'] by (simp add: qwen_step_untimed [of d el ms ord seen now] st)
qed

lemma insert_by_position_map:
  assumes "\<And>y. pos (f y) = pos y"
  shows "insert_by_position pos (f x) (map f ys) = map f (insert_by_position pos x ys)"
  by (induction ys) (simp_all add: assms)

lemma sort_by_position_map:
  assumes "\<And>y. pos (f y) = pos y"
  shows "sort_by_position pos (map f xs) = map f (sort_by_position pos xs)"
  unfolding sort_by_position_def
  by (induction xs) (simp_all add: insert_by_position_map [of pos f] assms)

lemma reassign_order_untimed:
  "reassign_order k (map untimed ms) = map untimed (reassign_order k ms)"
  by (induction ms arbitrary: k) (simp_all add: untimed_def)

lemma qwen_untimed:
  "map untimed (qwen_detectMessages d now) = qwen_detectMessages d (\<lambda>k. 0)"
proof -
  have c: "qwen_collect d (\<lambda>k. 0) = map untimed (qwen_collect d now)"
    unfolding qwen_collect_def
    using qwen_fold_untimed [of d "[]" 0 "[]" _ now]
    by (simp split: prod.splits)
  have e: "element (untimed y) = element y" for y by (simp add: untimed_def)
  show ?thesis
    unfolding qwen_detectMessages_def c
    by (simp add: sort_by_position_map [of element untimed, OF e] reassign_order_untimed)
qed


lemma visible_untimed: "visible (untimed m) = visible m"
  by (simp add: visible_def untimed_def)

lemma visible_eq:
  assumes "map untimed xs = map untimed ys"
  shows "map visible xs = map visible ys"
proof -
  have "map visible (map untimed xs) = map visible (map untimed ys)" using assms by simp
  then show ?thesis by (simp add: visible_untimed o_def)
qed

text \<open>
  C7.  Discovery is deterministic per document state.  Two scans of the same document
  differ at most in the capture times: for every strategy the records agree in
  \<open>msg_id\<close>, \<open>role\<close> and \<open>content\<close> at corresponding positions, whatever the clock
  returns.  Every identifier is built from the platform key, the role of the record,
  a positional index and the fingerprint of the full content, and \<open>content\<close> is the
  first 200 characters of the full content.
\<close>

theorem discovery_idempotent:
  "map visible (chatgpt_detectMessages d now) = map visible (chatgpt_detectMessages d now') \<and>
   map visible (qwen_detectMessages d now) = map visible (qwen_detectMessages d now') \<and>
   map visible (claude_detectMessages d now) = map visible (claude_detectMessages d now') \<and>
   map visible (deepseek_detectMessages d now) = map visible (deepseek_detectMessages d now') \<and>
   (\<forall>m \<in> set (chatgpt_detectMessages d now). id_derived ''chatgpt'' m) \<and>
   (\<forall>m \<in> set (qwen_detectMessages d now). id_derived ''qwen'' m) \<and>
   (\<forall>m \<in> set (claude_detectMessages d now). id_derived ''claude'' m) \<and>
   (\<forall>m \<in> set (deepseek_detectMessages d now). id_derived ''deepseek'' m)"
proof -
  have t1: "map visible (chatgpt_detectMessages d now) = map visible (chatgpt_detectMessages d now')"
    by (rule visible_eq) (simp add: chatgpt_untimed)
  have t2: "map visible (qwen_detectMessages d now) = map visible (qwen_detectMessages d now')"
    by (rule visible_eq) (simp add: qwen_untimed)
  have t3: "map visible (claude_detectMessages d now) = map visible (claude_detectMessages d now')"
    by (rule visible_eq) (simp add: claude_untimed)
  have t4: "map visible (deepseek_detectMessages d now) = map visible (deepseek_detectMessages d now')"
    by (rule visible_eq) (simp add: deepseek_untimed)
  have i1: "list_all (id_derived ''chatgpt'') (chatgpt_detectMessages d now)"
    by (rule chatgpt_detectMessages_all)
       (auto simp: chatgpt_message_def id_derived_def make_id_def contentHash_def Let_def
             split: option.splits if_splits)
  have i2: "list_all (id_derived ''qwen'') (qwen_detectMessages d now)"
    by (rule qwen_detectMessages_all)
       (auto simp: id_derived_def make_id_def contentHash_def)
  have i3: "list_all (id_derived ''claude'') (claude_detectMessages d now)"
    by (rule claude_detectMessages_all)
       (auto simp: claude_user_def claude_assistant_def id_derived_def make_id_def contentHash_def
             Let_def split: list.splits if_splits)
  have i4: "list_all (id_derived ''deepseek'') (deepseek_detectMessages d now)"
    by (rule deepseek_detectMessages_all)
       (auto simp: deepseek_message_def id_derived_def make_id_def contentHash_def Let_def
             split: option.splits if_splits prod.splits)
  from t1 t2 t3 t4 i1 i2 i3 i4 show ?thesis by (simp add: list_all_iff)
qed


theorem discovery_idempotent_witness:
  "map visible (chatgpt_detectMessages mixed_doc (\<lambda>k. 0)) =
     map visible (chatgpt_detectMessages mixed_doc (\<lambda>k. 1000 + int k)) \<and>
   map visible (qwen_detectMessages mixed_doc (\<lambda>k. 0)) =
     map visible (qwen_detectMessages mixed_doc (\<lambda>k. 1000 + int k)) \<and>
   map visible (claude_detectMessages mixed_doc (\<lambda>k. 0)) =
     map visible (claude_detectMessages mixed_doc (\<lambda>k. 1000 + int k)) \<and>
   map visible (deepseek_detectMessages mixed_doc (\<lambda>k. 0)) =
     map visible (deepseek_detectMessages mixed_doc (\<lambda>k. 1000 + int k)) \<and>
   map visible (chatgpt_detectMessages mixed_doc (\<lambda>k. 0)) =
     [(''msg-chatgpt-user-0-Whatissixtimesseven?'', ''user'', ''What is six times seven?'')] \<and>
   map visible (qwen_detectMessages mixed_doc (\<lambda>k. 0)) =
     [(''msg-qwen-user-0-Whatissixtimesseven?'', ''user'', ''What is six times seven?'')] \<and>
   map visible (claude_detectMessages mixed_doc (\<lambda>k. 0)) =
     [(''msg-claude-user-0-Andseventimessix?'', ''user'', ''And seven times six?'')] \<and>
   map visible (deepseek_detectMessages mixed_doc (\<lambda>k. 0)) =
     [(''msg-deepseek-assistant-0-Theansweris42.'', ''assistant'', ''The answer is 42.'')] \<and>
   id_derived ''chatgpt'' (hd (chatgpt_detectMessages mixed_doc (\<lambda>k. 0))) \<and>
   id_derived ''qwen'' (hd (qwen_detectMessages mixed_doc (\<lambda>k. 0))) \<and>
   id_derived ''claude'' (hd (claude_detectMessages mixed_doc (\<lambda>k. 0))) \<and>
   id_derived ''deepseek'' (hd (deepseek_detectMessages mixed_doc (\<lambda>k. 0)))"
proof -
  have v: "map visible (chatgpt_detectMessages mixed_doc (\<lambda>k. 0)) =
     [(''msg-chatgpt-user-0-Whatissixtimesseven?'', ''user'', ''What is six times seven?'')]"
    "map visible (qwen_detectMessages mixed_doc (\<lambda>k. 0)) =
     [(''msg-qwen-user-0-Whatissixtimesseven?'', ''user'', ''What is six times seven?'')]"
    "map visible (claude_detectMessages mixed_doc (\<lambda>k. 0)) =
     [(''msg-claude-user-0-Andseventimessix?'', ''user'', ''And seven times six?'')]"
    "map visible (deepseek_detectMessages mixed_doc (\<lambda>k. 0)) =
     [(''msg-deepseek-assistant-0-Theansweris42.'', ''assistant'', ''The answer is 42.'')]"
    by code_simp+
  have ne: "chatgpt_detectMessages mixed_doc (\<lambda>k. 0) \<noteq> []"
    "qwen_detectMessages mixed_doc (\<lambda>k. 0) \<noteq> []"
    "claude_detectMessages mixed_doc (\<lambda>k. 0) \<noteq> []"
    "deepseek_detectMessages mixed_doc (\<lambda>k. 0) \<noteq> []"
    using v by auto
  from discovery_idempotent [of mixed_doc "\<lambda>k. 0" "\<lambda>k. 1000 + int k"] v ne
  show ?thesis by (simp add: hd_in_set)
qed

section \<open>Whitespace normalization\<close>

lemma js_space_space: "js_space (CHR '' '')"
  by (simp add: js_space_def)

lemma collapse_ws_nonspace:
  "t \<noteq> [] \<Longrightarrow> \<not> js_space (hd t) \<Longrightarrow> collapse_ws t = hd t # collapse_ws (tl t)"
  by (cases t) simp_all

lemma collapse_ws_head:
  "t = [] \<or> \<not> js_space (hd t) \<Longrightarrow> collapse_ws t = [] \<or> \<not> js_space (hd (collapse_ws t))"
  by (cases t) auto

lemma dropWhile_head: "dropWhile P cs = [] \<or> \<not> P (hd (dropWhile P cs))"
  using hd_dropWhile [of P cs] by blast

lemma single_spaced_collapse: "single_spaced (collapse_ws s)"
proof (induction s rule: collapse_ws.induct)
  case 1
  then show ?case by simp
next
  case (2 c cs)
  show ?case
  proof (cases "js_space c")
    case True
    have "collapse_ws (dropWhile js_space cs) = [] \<or>
          \<not> js_space (hd (collapse_ws (dropWhile js_space cs)))"
      by (rule collapse_ws_head) (rule dropWhile_head)
    with True "2" show ?thesis by (auto split: list.splits)
  next
    case False
    with "2" show ?thesis by simp
  qed
qed

lemma single_spaced_append:
  "single_spaced (xs @ ys) \<Longrightarrow> single_spaced xs \<and> single_spaced ys"
proof (induction xs)
  case Nil
  then show ?case by simp
next
  case (Cons x xs)
  then show ?case by (cases xs) (auto split: list.splits)
qed

lemma single_spaced_join2:
  assumes "single_spaced xs" and "single_spaced ys"
    and "xs = [] \<or> ys = [] \<or> \<not> js_space (last xs) \<or> \<not> js_space (hd ys)"
  shows "single_spaced (xs @ ys)"
  using assms
proof (induction xs)
  case Nil
  then show ?case by simp
next
  case (Cons x xs)
  show ?case
  proof (cases xs)
    case Nil
    with Cons.prems show ?thesis by (cases ys) auto
  next
    case (Cons x' xs')
    with Cons.prems Cons.IH show ?thesis by auto
  qed
qed

lemma trim_prefix_suffix: "\<exists>a b. s = a @ trim s @ b"
proof -
  let ?u = "dropWhile js_space s"
  have 1: "s = takeWhile js_space s @ ?u" by simp
  have "rev ?u = takeWhile js_space (rev ?u) @ dropWhile js_space (rev ?u)" by simp
  then have "?u = rev (dropWhile js_space (rev ?u)) @ rev (takeWhile js_space (rev ?u))"
    by (metis rev_append rev_rev_ident)
  then have "?u = trim s @ rev (takeWhile js_space (rev ?u))" by (simp add: trim_def)
  with 1 show ?thesis by metis
qed

lemma single_spaced_sublist:
  "single_spaced (a @ p @ b) \<Longrightarrow> single_spaced p"
  using single_spaced_append by blast

lemma single_spaced_trim: "single_spaced s \<Longrightarrow> single_spaced (trim s)"
  using trim_prefix_suffix [of s] single_spaced_sublist by metis

lemma last_dropWhile_same: "dropWhile P xs \<noteq> [] \<Longrightarrow> last (dropWhile P xs) = last xs"
  by (induction xs) (auto split: if_splits)

lemma trimmed_trim: "trimmed (trim s)"
proof (cases "trim s = []")
  case True
  then show ?thesis by (simp add: trimmed_def)
next
  case False
  define u where "u = dropWhile js_space s"
  define v where "v = dropWhile js_space (rev u)"
  have t: "trim s = rev v" by (simp add: trim_def u_def v_def)
  with False have v: "v \<noteq> []" by simp
  then have u: "u \<noteq> []" unfolding v_def by auto
  have "\<not> js_space (hd v)" using v hd_dropWhile [of js_space "rev u"] by (simp add: v_def)
  then have l: "\<not> js_space (last (trim s))" by (simp add: t last_rev)
  have "last v = last (rev u)" using v last_dropWhile_same [of js_space "rev u"] by (simp add: v_def)
  then have "hd (trim s) = hd u" by (simp add: t hd_rev last_rev)
  moreover have "\<not> js_space (hd u)" using u hd_dropWhile [of js_space s] by (simp add: u_def)
  ultimately show ?thesis using l by (simp add: trimmed_def)
qed

lemma normalized_trim_collapse: "normalized (trim (collapse_ws s))"
  by (simp add: normalized_def single_spaced_trim single_spaced_collapse trimmed_trim)

lemma last_dropWhile_keep:
  "xs \<noteq> [] \<Longrightarrow> \<not> P (last xs) \<Longrightarrow> dropWhile P xs \<noteq> [] \<and> last (dropWhile P xs) = last xs"
  by (induction xs) (auto split: if_splits)

lemma last_collapse_ws:
  "t \<noteq> [] \<Longrightarrow> \<not> js_space (last t) \<Longrightarrow> collapse_ws t \<noteq> [] \<and> last (collapse_ws t) = last t"
proof (induction t rule: collapse_ws.induct)
  case 1
  then show ?case by simp
next
  case (2 c cs)
  show ?case
  proof (cases "js_space c")
    case True
    with "2.prems" have cs: "cs \<noteq> []" "\<not> js_space (last cs)" by (auto split: if_splits)
    from last_dropWhile_keep [of cs js_space] "2" True cs show ?thesis by auto
  next
    case False
    with "2" show ?thesis by (cases cs) auto
  qed
qed

lemma normalized_collapse_trim: "normalized (collapse_ws (trim s))"
proof -
  have t: "trimmed (trim s)" by (rule trimmed_trim)
  have "trimmed (collapse_ws (trim s))"
  proof (cases "trim s = []")
    case True
    then show ?thesis by (simp add: trimmed_def)
  next
    case False
    with t have h: "\<not> js_space (hd (trim s))" and l: "\<not> js_space (last (trim s))"
      by (simp_all add: trimmed_def)
    from collapse_ws_nonspace [OF False h] last_collapse_ws [OF False l] h l
    show ?thesis by (simp add: trimmed_def)
  qed
  then show ?thesis by (simp add: normalized_def single_spaced_collapse)
qed


lemma re_match_suffix: "re_match as s = Some rest \<Longrightarrow> \<exists>m. s = m @ rest"
proof (induction as s arbitrary: rest rule: re_match.induct)
  case (1 s)
  then show ?case by simp
next
  case (2 l r s)
  then have "\<exists>m. drop (length l) s = m @ rest" by (auto split: if_splits)
  then obtain m where "drop (length l) s = m @ rest" ..
  then have "s = (take (length l) s @ m) @ rest" by (metis append_assoc append_take_drop_id)
  then show ?case ..
next
  case (3 c r)
  then show ?case by simp
next
  case (4 c r x xs)
  show ?case
  proof (cases "x = c")
    case True
    show ?thesis
    proof (cases "re_match r xs")
      case None
      with True "4.prems" "4.IH"(2) show ?thesis by simp
    next
      case (Some t)
      with True "4.prems" have "t = rest" by simp
      with Some "4.IH"(1) [OF True] obtain m where "xs = m @ rest" by blast
      then have "x # xs = (x # m) @ rest" by simp
      then show ?thesis ..
    qed
  next
    case False
    with "4.prems" "4.IH"(3) show ?thesis by simp
  qed
next
  case (5 r)
  then show ?case by simp
next
  case (6 r x xs)
  show ?case
  proof (cases "js_space x")
    case True
    show ?thesis
    proof (cases "re_match (Ws_star # r) xs")
      case None
      with True "6.prems" "6.IH"(2) show ?thesis by simp
    next
      case (Some t)
      with True "6.prems" have "t = rest" by simp
      with Some "6.IH"(1) [OF True] obtain m where "xs = m @ rest" by blast
      then have "x # xs = (x # m) @ rest" by simp
      then show ?thesis ..
    qed
  next
    case False
    with "6.prems" "6.IH"(3) show ?thesis by simp
  qed
next
  case (7 r)
  then show ?case by simp
next
  case (8 r x xs)
  then have sp: "js_space x" and "re_match (Ws_star # r) xs = Some rest" by (auto split: if_splits)
  with "8.IH" obtain m where "xs = m @ rest" by blast
  then have "x # xs = (x # m) @ rest" by simp
  then show ?case ..
next
  case (9 cs r)
  then show ?case by simp
next
  case (10 cs r x xs)
  then have sp: "x \<in> set cs" and "re_match r xs = Some rest" by (auto split: if_splits)
  with "10.IH" obtain m where "xs = m @ rest" by blast
  then have "x # xs = (x # m) @ rest" by simp
  then show ?case ..
qed

lemma split_go_pieces:
  "p \<in> set (split_go as cur s) \<Longrightarrow> \<exists>a b. cur @ s = a @ p @ b"
proof (induction as cur s arbitrary: p rule: split_go.induct)
  case (1 as cur)
  then have "cur @ [] = [] @ p @ []" by simp
  then show ?case by blast
next
  case (2 as cur c cs)
  show ?case
  proof (cases "re_match as (c # cs)")
    case None
    with "2.prems" have "p \<in> set (split_go as (cur @ [c]) cs)" by simp
    from "2.IH"(1) [OF None this] show ?thesis by simp
  next
    case (Some rest)
    show ?thesis
    proof (cases "length rest \<le> length cs")
      case True
      with Some "2.prems" have "p = cur \<or> p \<in> set (split_go as [] rest)" by simp
      then show ?thesis
      proof
        assume "p = cur"
        then have "cur @ c # cs = [] @ p @ (c # cs)" by simp
        then show ?thesis by blast
      next
        assume "p \<in> set (split_go as [] rest)"
        from "2.IH"(2) [OF Some True this] obtain a b where ab: "rest = a @ p @ b" by auto
        from re_match_suffix [OF Some] obtain m where "c # cs = m @ rest" ..
        with ab have "cur @ c # cs = (cur @ m @ a) @ p @ b" by simp
        then show ?thesis by blast
      qed
    next
      case False
      with Some "2.prems" have "p \<in> set (split_go as (cur @ [c]) cs)" by simp
      from "2.IH"(3) [OF Some False this] show ?thesis by simp
    qed
  qed
qed

lemma trim_nonempty_normalized:
  assumes "single_spaced p" and "length (trim p) > 0"
  shows "single_spaced (trim p) \<and> \<not> js_space (hd (trim p)) \<and> \<not> js_space (last (trim p)) \<and> trim p \<noteq> []"
  using assms trimmed_trim [of p] single_spaced_trim [of p] by (auto simp: trimmed_def)

lemma uniqueSentences_subset:
  "set (uniqueSentences ss seen) \<subseteq> trim ` set ss"
  by (induction ss arbitrary: seen) (auto simp: Let_def)

lemma hd_join: "x \<noteq> [] \<Longrightarrow> hd (join sep (x # xs)) = hd x"
  by (cases xs) simp_all

lemma join_nonempty: "x \<noteq> [] \<Longrightarrow> join sep (x # xs) \<noteq> []"
  by (cases xs) simp_all

lemma single_spaced_join:
  "list_all sentence_like us \<Longrightarrow> single_spaced (join ''. '' us)"
proof (induction "''. ''" us rule: join.induct)
  case 1
  then show ?case by simp
next
  case (2 x)
  then show ?case by (simp add: sentence_like_def)
next
  case (3 x y ys)
  then have x: "sentence_like x" and y: "sentence_like y" and r: "single_spaced (join ''. '' (y # ys))"
    by simp_all
  from y have "y \<noteq> []" "\<not> js_space (hd y)" by (simp_all add: sentence_like_def)
  then have h: "\<not> js_space (hd (join ''. '' (y # ys)))" and n: "join ''. '' (y # ys) \<noteq> []"
    by (simp_all add: hd_join join_nonempty)
  have dot: "\<not> js_space (CHR ''.'')" by (simp add: js_space_def)
  from r h n dot have "single_spaced (''. '' @ join ''. '' (y # ys))"
    by (cases "join ''. '' (y # ys)") (simp_all add: js_space_space)
  moreover from x have "single_spaced x" by (simp add: sentence_like_def)
  ultimately have "single_spaced (x @ ''. '' @ join ''. '' (y # ys))"
    using single_spaced_join2 [of x "''. '' @ join ''. '' (y # ys)"] dot by simp
  then show ?case by simp
qed

lemma normalized_sentence_dedup:
  assumes "normalized original"
  shows "normalized (sentence_dedup original)"
proof -
  let ?sentences = "filter (\<lambda>s. length (trim s) > 0) (split_re sentence_end original)"
  let ?dedup = "trim (join ''. '' (uniqueSentences ?sentences []))"
  have "list_all sentence_like (uniqueSentences ?sentences [])"
  proof -
    have "sentence_like u" if "u \<in> set (uniqueSentences ?sentences [])" for u
    proof -
      from that uniqueSentences_subset [of ?sentences "[]"]
      obtain p where p: "p \<in> set ?sentences" and u: "u = trim p" by auto
      from p have "p \<in> set (split_go sentence_end [] original)" and len: "length (trim p) > 0"
        by (simp_all add: split_re_def)
      from split_go_pieces [OF this(1)] obtain a b where "original = a @ p @ b" by auto
      with assms have "single_spaced p"
        using single_spaced_sublist [of a p b] by (simp add: normalized_def)
      from trim_nonempty_normalized [OF this len] u show ?thesis by (simp add: sentence_like_def)
    qed
    then show ?thesis by (simp add: list_all_iff)
  qed
  then have "single_spaced (join ''. '' (uniqueSentences ?sentences []))"
    by (rule single_spaced_join)
  then have "normalized ?dedup"
    by (simp add: normalized_def single_spaced_trim trimmed_trim)
  with assms show ?thesis by (simp add: sentence_dedup_def Let_def)
qed

lemma normalized_combinedContent: "normalized (combinedContent raw)"
  unfolding combinedContent_def originalCombined_def
  by (rule normalized_sentence_dedup) (rule normalized_trim_collapse)

lemma single_spaced_fixpoint: "single_spaced s \<Longrightarrow> collapse_ws s = s"
proof (induction s rule: collapse_ws.induct)
  case 1
  then show ?case by simp
next
  case (2 c cs)
  then show ?case by (cases cs) (auto split: if_splits)
qed

lemma trimmed_fixpoint: "trimmed s \<Longrightarrow> trim s = s"
proof (cases "s = []")
  case True
  then show ?thesis by (simp add: trim_def)
next
  case False
  assume "trimmed s"
  with False have h: "\<not> js_space (hd s)" and l: "\<not> js_space (last s)" by (simp_all add: trimmed_def)
  from False h have 1: "dropWhile js_space s = s" by (cases s) simp_all
  from False l have "\<not> js_space (hd (rev s))" by (simp add: hd_rev)
  with False have "dropWhile js_space (rev s) = rev s" by (cases "rev s") simp_all
  with 1 show ?thesis by (simp add: trim_def)
qed

lemma normalized_iff: "normalized s \<longleftrightarrow> trim (collapse_ws s) = s"
proof
  assume "normalized s"
  then show "trim (collapse_ws s) = s"
    by (simp add: normalized_def single_spaced_fixpoint trimmed_fixpoint)
next
  assume "trim (collapse_ws s) = s"
  with normalized_trim_collapse [of s] show "normalized s" by simp
qed


lemma normalized_chatgpt_content: "normalized (chatgpt_content d el)"
  unfolding chatgpt_content_def Let_def by (rule normalized_trim_collapse)

lemma chatgpt_message_fullContent:
  "chatgpt_message d now el i k = Some m \<Longrightarrow> fullContent m = chatgpt_content d el"
  by (auto simp: chatgpt_message_def Let_def split: option.splits if_splits)

lemma chatgpt_fullContent_normalized:
  "list_all (\<lambda>m. normalized (fullContent m)) (chatgpt_detectMessages d now)"
    by (rule chatgpt_detectMessages_all)
       (simp add: chatgpt_message_fullContent normalized_chatgpt_content)

lemma deepseek_message_fullContent:
  "deepseek_message d now el i k = Some m \<Longrightarrow> \<exists>c0. fullContent m = trim (collapse_ws c0)"
proof -
  assume a: "deepseek_message d now el i k = Some m"
  obtain r c0 where rc: "deepseek_classify d el = (r, c0)" by (cases "deepseek_classify d el")
  show ?thesis
  proof (cases "c0 = []")
    case True
    with a rc show ?thesis by (auto simp: deepseek_message_def Let_def split: option.splits)
  next
    case False
    with a rc have "fullContent m = trim (collapse_ws c0)"
      by (auto simp: deepseek_message_def Let_def split: option.splits if_splits)
    then show ?thesis ..
  qed
qed

lemma deepseek_fullContent_normalized:
  "list_all (\<lambda>m. normalized (fullContent m)) (deepseek_detectMessages d now)"
proof (rule deepseek_detectMessages_all)
  fix el i k m
  assume "deepseek_message d now el i k = Some m"
  from deepseek_message_fullContent [OF this] show "normalized (fullContent m)"
    by (auto simp: normalized_trim_collapse)
qed

lemma claude_user_fullContent:
  "claude_user d now el i k = Some m \<Longrightarrow> fullContent m = collapse_ws (trim (text_at d el))"
  by (auto simp: claude_user_def Let_def split: if_splits)

lemma claude_assistant_fullContent:
  "claude_assistant d now bs i k = Some m \<Longrightarrow> fullContent m = combinedContent (map (text_at d) bs)"
  by (auto simp: claude_assistant_def Let_def split: list.splits if_splits)

lemma claude_fullContent_normalized:
  "list_all (\<lambda>m. normalized (fullContent m)) (claude_detectMessages d now)"
    by (rule claude_detectMessages_all)
       (simp_all add: claude_user_fullContent claude_assistant_fullContent
          normalized_collapse_trim normalized_combinedContent)


text \<open>
  C6, amended.  For the ChatGPT, DeepSeek and Claude strategies, the \<open>fullContent\<close> of
  every emitted record is normalized text: every run of whitespace is a single space
  and there is no surrounding whitespace; normalizing it again changes nothing.
\<close>

theorem fullContent_normalized:
  "(\<forall>m \<in> set (chatgpt_detectMessages d now).
      normalized (fullContent m) \<and> trim (collapse_ws (fullContent m)) = fullContent m) \<and>
   (\<forall>m \<in> set (deepseek_detectMessages d now).
      normalized (fullContent m) \<and> trim (collapse_ws (fullContent m)) = fullContent m) \<and>
   (\<forall>m \<in> set (claude_detectMessages d now).
      normalized (fullContent m) \<and> trim (collapse_ws (fullContent m)) = fullContent m)"
  using chatgpt_fullContent_normalized [of d now] deepseek_fullContent_normalized [of d now]
    claude_fullContent_normalized [of d now] by (simp add: list_all_iff normalized_iff)

text \<open>
  C6, as stated.  The Qwen strategy trims the extracted text and never collapses
  whitespace: a run of three spaces inside a user message reaches \<open>fullContent\<close>.
\<close>

theorem fullContent_normalized_counterexample:
  "map fullContent (qwen_detectMessages qwen_spaces_doc (\<lambda>k. 0)) = [''question   one''] \<and>
   \<not> normalized ''question   one'' \<and>
   trim (collapse_ws ''question   one'') = ''question one''"
  by code_simp


lemma all_fullContent:
  "\<forall>m \<in> set ms. normalized (fullContent m) \<and> trim (collapse_ws (fullContent m)) = fullContent m
   \<Longrightarrow> list_all normalized (map fullContent ms)"
  by (simp add: list_all_iff)

theorem fullContent_normalized_witness:
  "map fullContent (chatgpt_detectMessages mixed_doc (\<lambda>k. 0)) = [''What is six times seven?''] \<and>
   map fullContent (deepseek_detectMessages mixed_doc (\<lambda>k. 0)) = [''The answer is 42.''] \<and>
   map fullContent (claude_detectMessages (claude_turn_doc ''Yes,   that is right.  '') (\<lambda>k. 0)) =
     [''Is that right?'', ''Yes, that is right.''] \<and>
   normalized ''What is six times seven?'' \<and> normalized ''The answer is 42.'' \<and>
   normalized ''Is that right?'' \<and> normalized ''Yes, that is right.''"
proof -
  have v1: "map fullContent (chatgpt_detectMessages mixed_doc (\<lambda>k. 0)) = [''What is six times seven?'']"
    by code_simp
  have v2: "map fullContent (deepseek_detectMessages mixed_doc (\<lambda>k. 0)) = [''The answer is 42.'']"
    by code_simp
  have v3: "map fullContent (claude_detectMessages (claude_turn_doc ''Yes,   that is right.  '') (\<lambda>k. 0)) =
       [''Is that right?'', ''Yes, that is right.'']"
    by code_simp
  note t1 = fullContent_normalized [of mixed_doc "\<lambda>k. 0"]
  note t2 = fullContent_normalized [of "claude_turn_doc ''Yes,   that is right.  ''" "\<lambda>k. 0"]
  have "list_all normalized (map fullContent (chatgpt_detectMessages mixed_doc (\<lambda>k. 0)))"
    by (rule all_fullContent [OF t1 [THEN conjunct1]])
  then have n1: "normalized ''What is six times seven?''" unfolding v1 by (simp only: list.pred_inject simp_thms)
  have "list_all normalized (map fullContent (deepseek_detectMessages mixed_doc (\<lambda>k. 0)))"
    by (rule all_fullContent [OF t1 [THEN conjunct2, THEN conjunct1]])
  then have n2: "normalized ''The answer is 42.''" unfolding v2 by (simp only: list.pred_inject simp_thms)
  have "list_all normalized
      (map fullContent (claude_detectMessages (claude_turn_doc ''Yes,   that is right.  '') (\<lambda>k. 0)))"
    by (rule all_fullContent [OF t2 [THEN conjunct2, THEN conjunct2]])
  then have n3: "normalized ''Is that right?'' \<and> normalized ''Yes, that is right.''"
    unfolding v3 by (simp only: list.pred_inject simp_thms)
  from v1 v2 v3 n1 n2 n3 show ?thesis by (simp only: simp_thms)
qed

section \<open>Document order and the order field\<close>

lemma following_irrefl: "\<not> following p p"
  by (induction p) simp_all

lemma following_trans: "following a b \<Longrightarrow> following b c \<Longrightarrow> following a c"
proof (induction a b arbitrary: c rule: following.induct)
  case 1
  then show ?case by simp
next
  case (2 j q)
  then show ?case by (cases c) simp_all
next
  case (3 i p)
  then show ?case by simp
next
  case (4 i p j q)
  then show ?case by (cases c) (auto split: if_splits)
qed

lemma following_total: "a \<noteq> b \<Longrightarrow> following a b \<or> following b a"
  by (induction a b rule: following.induct) auto

lemma following_append: "following (p @ a) (p @ b) = following a b"
  by (induction p) simp_all

lemma sorted_following_distinct: "sorted_wrt following xs \<Longrightarrow> distinct xs"
  by (induction xs) (auto simp: following_irrefl)

lemma elements_from_head:
  "p \<in> set (elements_from i ks) \<Longrightarrow> \<exists>j q. p = j # q \<and> i \<le> j"
proof (induction ks arbitrary: i)
  case Nil
  then show ?case by simp
next
  case (Cons k ks)
  from Cons.prems have "p \<in> (#) i ` set (elements k) \<or> p \<in> set (elements_from (Suc i) ks)"
    by simp
  then show ?case
  proof
    assume "p \<in> (#) i ` set (elements k)"
    then show ?thesis by auto
  next
    assume "p \<in> set (elements_from (Suc i) ks)"
    from Cons.IH [OF this] show ?thesis by (metis Suc_leD)
  qed
qed

lemma sorted_elements:
  "sorted_wrt following (elements n)"
  "sorted_wrt following (elements_from i ks)"
proof (induction n and i ks rule: elements_elements_from.induct)
  case (1 s)
  then show ?case by simp
next
  case (2 t a g ks)
  have "following [] p" if "p \<in> set (elements_from 0 ks)" for p
    using elements_from_head [OF that] by auto
  with "2" show ?case by simp
next
  case (3 i)
  then show ?case by simp
next
  case (4 i k ks)
  have a: "sorted_wrt following (map ((#) i) (elements k))"
    using "4"(1) by (simp add: sorted_wrt_map)
  have c: "following x y" if "x \<in> set (map ((#) i) (elements k))" "y \<in> set (elements_from (Suc i) ks)" for x y
  proof -
    from that(1) obtain p where "x = i # p" by auto
    moreover from elements_from_head [OF that(2)] obtain j q where "y = j # q" "Suc i \<le> j" by auto
    ultimately show ?thesis by simp
  qed
  from a "4"(2) c show ?case by (simp add: sorted_wrt_append)
qed

lemma sorted_tl: "sorted_wrt P xs \<Longrightarrow> sorted_wrt P (tl xs)"
  by (cases xs) simp_all

lemma sorted_descendants: "sorted_wrt following (descendants d p)"
proof (cases "node_at d p")
  case None
  then show ?thesis by (simp add: descendants_def)
next
  case (Some n)
  have "sorted_wrt following (tl (elements n))" by (rule sorted_tl) (rule sorted_elements)
  then show ?thesis by (simp add: descendants_def Some sorted_wrt_map following_append)
qed

lemma sorted_querySelectorAll: "sorted_wrt following (querySelectorAll d root sel)"
  unfolding querySelectorAll_def by (rule sorted_wrt_filter) (rule sorted_descendants)

lemma sorted_document_querySelectorAll: "sorted_wrt following (document_querySelectorAll d sel)"
  unfolding document_querySelectorAll_def by (rule sorted_wrt_filter) (rule sorted_elements)

lemma sorted_insert_by_position:
  assumes "sorted_wrt following (map pos ys)" and "pos x \<notin> set (map pos ys)"
  shows "sorted_wrt following (map pos (insert_by_position pos x ys))"
  using assms
proof (induction ys)
  case Nil
  then show ?case by simp
next
  case (Cons y ys)
  show ?case
  proof (cases "following (pos x) (pos y)")
    case True
    with Cons.prems show ?thesis by (auto intro: following_trans)
  next
    case False
    with Cons.prems following_total [of "pos x" "pos y"] have yx: "following (pos y) (pos x)" by auto
    from Cons have "sorted_wrt following (map pos (insert_by_position pos x ys))" by simp
    with False yx Cons.prems show ?thesis by (auto simp: set_insert_by_position)
  qed
qed

lemma sorted_sort_by_position:
  "distinct (map pos xs) \<Longrightarrow> sorted_wrt following (map pos (sort_by_position pos xs))"
proof (induction xs)
  case Nil
  then show ?case by (simp add: sort_by_position_def)
next
  case (Cons x xs)
  then have "sorted_wrt following (map pos (sort_by_position pos xs))" by simp
  moreover from Cons.prems have "pos x \<notin> set (map pos (sort_by_position pos xs))"
    by (simp add: set_sort_by_position)
  ultimately have "sorted_wrt following (map pos (insert_by_position pos x (sort_by_position pos xs)))"
    by (rule sorted_insert_by_position)
  then show ?case by (simp add: sort_by_position_def)
qed

lemma map_element_reassign: "map element (reassign_order k ms) = map element ms"
  by (induction ms arbitrary: k) simp_all

lemma map_order_reassign: "map msg_order (reassign_order k ms) = map Some [k..<k + length ms]"
proof (induction ms arbitrary: k)
  case Nil
  then show ?case by simp
next
  case (Cons m ms)
  have "[k..<k + length (m # ms)] = k # [Suc k..<Suc k + length ms]"
    by (subst upt_rec) simp
  with Cons [of "Suc k"] show ?case by simp
qed


lemma numbered_push:
  assumes "numbered st" and "\<And>r. m = Some r \<Longrightarrow> msg_order r = Some (snd st)"
  shows "numbered (push_message m st)"
  using assms by (cases m) (auto simp: numbered_def push_message_def)

lemma claude_user_order: "claude_user d now el i k = Some r \<Longrightarrow> msg_order r = Some k"
  by (auto simp: claude_user_def Let_def split: if_splits)

lemma claude_assistant_order: "claude_assistant d now bs i k = Some r \<Longrightarrow> msg_order r = Some k"
  by (auto simp: claude_assistant_def Let_def split: list.splits if_splits)

lemma claude_forEach_numbered:
  "numbered st \<Longrightarrow> numbered (claude_forEach d now us els i st)"
proof (induction els arbitrary: i st)
  case Nil
  then show ?case by simp
next
  case (Cons el els)
  let ?st1 = "push_message (claude_user d now el i (snd st)) st"
  have 1: "numbered ?st1" using Cons.prems by (rule numbered_push) (rule claude_user_order)
  have "numbered (push_message (claude_assistant d now (assistantBlocks d us el) i (snd ?st1)) ?st1)"
    using 1 by (rule numbered_push) (rule claude_assistant_order)
  from Cons.IH [OF this] show ?case by (simp add: Let_def)
qed

lemma claude_orders:
  "map msg_order (claude_detectMessages d now) = map Some [0..<length (claude_detectMessages d now)]"
proof (cases "claude_container d")
  case None
  then show ?thesis by (simp add: claude_detectMessages_def)
next
  case (Some c)
  have "numbered (claude_forEach d now (claude_userElements d c) (claude_userElements d c) 0 ([], 0))"
    by (rule claude_forEach_numbered) (simp add: numbered_def)
  with Some show ?thesis by (simp add: claude_detectMessages_def Let_def numbered_def)
qed

lemma deepseek_message_order: "deepseek_message d now el i k = Some r \<Longrightarrow> msg_order r = Some k"
  by (auto simp: deepseek_message_def Let_def split: option.splits if_splits prod.splits)

text \<open>
  The records a DeepSeek scan adds, each with the message element it was extracted
  from.
\<close>

lemma deepseek_forEach_sources:
  assumes "numbered (ms, k)"
  shows "\<exists>new cs. deepseek_forEach d now els i (ms, k) = (ms @ new, k + length new) \<and>
           numbered (ms @ new, k + length new) \<and>
           list_all2 (\<lambda>m c. \<exists>j ord. deepseek_message d now c j ord = Some m) new cs \<and>
           set cs \<subseteq> set els \<and>
           (sorted_wrt following els \<longrightarrow> sorted_wrt following cs)"
  using assms
proof (induction els arbitrary: i ms k)
  case Nil
  then show ?case by simp
next
  case (Cons el els)
  show ?case
  proof (cases "deepseek_message d now el i k")
    case None
    from Cons.IH [OF Cons.prems, of "Suc i"] obtain new cs where
      "deepseek_forEach d now els (Suc i) (ms, k) = (ms @ new, k + length new)"
      "numbered (ms @ new, k + length new)"
      "list_all2 (\<lambda>m c. \<exists>j ord. deepseek_message d now c j ord = Some m) new cs"
      "set cs \<subseteq> set els" "sorted_wrt following els \<longrightarrow> sorted_wrt following cs"
      by blast
    with None show ?thesis by (intro exI [of _ new] exI [of _ cs]) auto
  next
    case (Some r)
    from deepseek_message_order [OF Some] Cons.prems have n: "numbered (ms @ [r], Suc k)"
      by (auto simp: numbered_def)
    from Cons.IH [OF n, of "Suc i"] obtain new cs where
      f: "deepseek_forEach d now els (Suc i) (ms @ [r], Suc k) = ((ms @ [r]) @ new, Suc k + length new)"
      and nn: "numbered ((ms @ [r]) @ new, Suc k + length new)"
      and l: "list_all2 (\<lambda>m c. \<exists>j ord. deepseek_message d now c j ord = Some m) new cs"
      and sub: "set cs \<subseteq> set els" and so: "sorted_wrt following els \<longrightarrow> sorted_wrt following cs"
      by blast
    have "list_all2 (\<lambda>m c. \<exists>j ord. deepseek_message d now c j ord = Some m) (r # new) (el # cs)"
      using l Some by auto
    moreover have "sorted_wrt following (el # els) \<longrightarrow> sorted_wrt following (el # cs)"
      using so sub by auto
    ultimately show ?thesis using Some f nn sub
      by (intro exI [of _ "r # new"] exI [of _ "el # cs"]) auto
  qed
qed

lemma sorted_first_nonempty:
  "list_all (sorted_wrt following) xss \<Longrightarrow> sorted_wrt following (first_nonempty xss)"
  by (induction xss) simp_all

lemma sorted_deepseek_messageElements:
  "sorted_wrt following (sort_by_position (\<lambda>p. p) (deepseek_messageElements d container))"
proof -
  have "sorted_wrt following (deepseek_messageElements d container)"
    unfolding deepseek_messageElements_def
    by (rule sorted_first_nonempty)
       (simp add: sorted_querySelectorAll sorted_document_querySelectorAll)
  then have "distinct (map (\<lambda>p. p) (deepseek_messageElements d container))"
    by (simp add: sorted_following_distinct)
  from sorted_sort_by_position [OF this] show ?thesis by simp
qed

lemma qwen_fold_sorted:
  assumes "sorted_wrt following (map element ms @ els)"
  shows "sorted_wrt following
           (map element (fst (foldl (\<lambda>st msgEl. qwen_step d now msgEl st) (ms, ord, seen) els)))"
  using assms
proof (induction els arbitrary: ms ord seen)
  case Nil
  then show ?case by simp
next
  case (Cons el els)
  obtain ms' ord' seen' where st: "qwen_step d now el (ms, ord, seen) = (ms', ord', seen')"
    by (cases "qwen_step d now el (ms, ord, seen)")
  from qwen_step_cases [OF st] Cons.prems have "sorted_wrt following (map element ms' @ els)"
    by (auto simp: sorted_wrt_append)
  from Cons.IH [OF this] show ?case by (simp add: st)
qed

lemma qwen_collect_sorted: "sorted_wrt following (map element (qwen_collect d now))"
  unfolding qwen_collect_def
  by (rule qwen_fold_sorted) (simp add: sorted_document_querySelectorAll)


text \<open>
  C1, as stated.  The records of the ChatGPT strategy carry no \<^verbatim>\<open>order\<close> field.
  The Claude strategy numbers its records in emission order, a user message and then
  its inferred response, and never sorts them: with two user messages in one container
  and the response block after it, the record numbered 1 is anchored after the record
  numbered 2 in the document, and the same block is emitted for both turns.  The anchor
  of a DeepSeek assistant record is the enclosing container, which precedes the user
  message of the same turn.
\<close>

theorem order_counterexample:
  "map msg_order (chatgpt_detectMessages mixed_doc (\<lambda>k. 0)) = [None] \<and>
   map msg_order (claude_detectMessages claude_two_users_doc (\<lambda>k. 0)) = [Some 0, Some 1, Some 2, Some 3] \<and>
   map element (claude_detectMessages claude_two_users_doc (\<lambda>k. 0)) =
     [[1, 0, 0, 0], [1, 0, 1], [1, 0, 0, 1], [1, 0, 1]] \<and>
   \<not> sorted_wrt following [[1, 0, 0, 0], [1, 0, 1], [1, 0, 0, 1], [1, 0, 1]] \<and>
   following [1, 0, 0, 1] [1, 0, 1] \<and>
   map msg_order (deepseek_detectMessages deepseek_turn_doc (\<lambda>k. 0)) = [Some 0, Some 1] \<and>
   map element (deepseek_detectMessages deepseek_turn_doc (\<lambda>k. 0)) = [[1, 0, 0], [1, 0]] \<and>
   following [1, 0] [1, 0, 0]"
  by code_simp

lemma length_reassign_order: "length (reassign_order k ms) = length ms"
  by (induction ms arbitrary: k) simp_all

text \<open>
  C1, amended.  For the Qwen and DeepSeek strategies every record carries an
  \<^verbatim>\<open>order\<close> equal to its index in the returned sequence, so the values are
  \<open>0..N-1\<close>, and the sequence follows the document position of the message elements
  the records were extracted from: the anchors of the Qwen records are strictly
  increasing in document order, and the DeepSeek records stem, one by one, from message
  elements in strictly increasing document order.  The sort and renumbering that Qwen
  applies gives this result for every sequence of records with distinct anchors,
  whatever order they were discovered in.  For the Claude strategy the values are
  \<open>0..N-1\<close> in emission order.
\<close>

theorem order_by_document_position:
  "(map msg_order (qwen_detectMessages d now) = map Some [0..<length (qwen_detectMessages d now)] \<and>
    sorted_wrt following (map element (qwen_detectMessages d now))) \<and>
   (map msg_order (deepseek_detectMessages d now) =
      map Some [0..<length (deepseek_detectMessages d now)] \<and>
    (\<exists>cs. sorted_wrt following cs \<and>
       list_all2 (\<lambda>m c. \<exists>index ord. deepseek_message d now c index ord = Some m)
         (deepseek_detectMessages d now) cs)) \<and>
   map msg_order (claude_detectMessages d now) = map Some [0..<length (claude_detectMessages d now)] \<and>
   (distinct (map element ms) \<longrightarrow>
      sorted_wrt following (map element (reassign_order 0 (sort_by_position element ms))) \<and>
      map msg_order (reassign_order 0 (sort_by_position element ms)) = map Some [0..<length ms] \<and>
      set (map element (reassign_order 0 (sort_by_position element ms))) = set (map element ms))"
proof -
  have q1: "map msg_order (qwen_detectMessages d now) = map Some [0..<length (qwen_detectMessages d now)]"
    by (simp add: qwen_detectMessages_def map_order_reassign length_sort_by_position
          length_reassign_order)
  have "distinct (map element (qwen_collect d now))"
    by (rule sorted_following_distinct) (rule qwen_collect_sorted)
  then have q2: "sorted_wrt following (map element (qwen_detectMessages d now))"
    by (simp add: qwen_detectMessages_def map_element_reassign sorted_sort_by_position)
  have s: "map msg_order (deepseek_detectMessages d now) =
      map Some [0..<length (deepseek_detectMessages d now)] \<and>
    (\<exists>cs. sorted_wrt following cs \<and>
       list_all2 (\<lambda>m c. \<exists>index ord. deepseek_message d now c index ord = Some m)
         (deepseek_detectMessages d now) cs)"
  proof (cases "deepseek_container d")
    case None
    then show ?thesis by (simp add: deepseek_detectMessages_def)
  next
    case (Some container)
    let ?els = "sort_by_position (\<lambda>p. p) (deepseek_messageElements d container)"
    have "numbered ([], 0)" by (simp add: numbered_def)
    from deepseek_forEach_sources [OF this, of d now ?els 0] obtain new cs where
      f: "deepseek_forEach d now ?els 0 ([], 0) = ([] @ new, 0 + length new)"
      and n: "numbered ([] @ new, 0 + length new)"
      and l: "list_all2 (\<lambda>m c. \<exists>j ord. deepseek_message d now c j ord = Some m) new cs"
      and so: "sorted_wrt following ?els \<longrightarrow> sorted_wrt following cs"
      by blast
    from so sorted_deepseek_messageElements [of d container] have "sorted_wrt following cs" by simp
    with f n l Some show ?thesis by (auto simp: deepseek_detectMessages_def numbered_def)
  qed
  have g: "sorted_wrt following (map element (reassign_order 0 (sort_by_position element ms))) \<and>
      map msg_order (reassign_order 0 (sort_by_position element ms)) = map Some [0..<length ms] \<and>
      set (map element (reassign_order 0 (sort_by_position element ms))) = set (map element ms)"
    if "distinct (map element ms)"
    using that
    by (simp add: map_element_reassign sorted_sort_by_position map_order_reassign
          length_sort_by_position set_sort_by_position)
  from q1 q2 s claude_orders [of d now] g show ?thesis by blast
qed


theorem order_by_document_position_witness:
  "map msg_order (qwen_detectMessages qwen_two_doc (\<lambda>k. 0)) = [Some 0, Some 1] \<and>
   map element (qwen_detectMessages qwen_two_doc (\<lambda>k. 0)) = [[1, 0], [1, 1]] \<and>
   sorted_wrt following [[1, 0], [1, 1]] \<and>
   map element (rev (qwen_collect qwen_two_doc (\<lambda>k. 0))) = [[1, 1], [1, 0]] \<and>
   distinct (map element (rev (qwen_collect qwen_two_doc (\<lambda>k. 0)))) \<and>
   map element (reassign_order 0 (sort_by_position element (rev (qwen_collect qwen_two_doc (\<lambda>k. 0))))) =
     [[1, 0], [1, 1]] \<and>
   map msg_order (reassign_order 0 (sort_by_position element (rev (qwen_collect qwen_two_doc (\<lambda>k. 0))))) =
     [Some 0, Some 1]"
proof -
  have e1: "map element (qwen_detectMessages qwen_two_doc (\<lambda>k. 0)) = [[1, 0], [1, 1]]"
    by code_simp
  have e2: "map element (rev (qwen_collect qwen_two_doc (\<lambda>k. 0))) = [[1, 1], [1, 0]]"
    by code_simp
  have e3: "map element (reassign_order 0 (sort_by_position element (rev (qwen_collect qwen_two_doc (\<lambda>k. 0))))) =
     [[1, 0], [1, 1]]"
    by code_simp
  have e4: "map msg_order (qwen_detectMessages qwen_two_doc (\<lambda>k. 0)) = [Some 0, Some 1]"
    by code_simp
  have e5: "map msg_order (reassign_order 0 (sort_by_position element (rev (qwen_collect qwen_two_doc (\<lambda>k. 0))))) =
     [Some 0, Some 1]"
    by code_simp
  note t = order_by_document_position
             [of qwen_two_doc "\<lambda>k. 0" "rev (qwen_collect qwen_two_doc (\<lambda>k. 0))"]
  from t have "sorted_wrt following (map element (qwen_detectMessages qwen_two_doc (\<lambda>k. 0)))"
    by blast
  then have s: "sorted_wrt following [[1, 0], [1, 1]]" by (simp only: e1)
  have d: "distinct (map element (rev (qwen_collect qwen_two_doc (\<lambda>k. 0))))"
    by (simp only: e2) simp
  from e1 e2 e3 e4 e5 s d show ?thesis by (simp only: simp_thms)
qed

section \<open>The last resort of content extraction\<close>

lemma qwen_collect_alt:
  "qwen_collect d now =
     fst (foldl (\<lambda>st msgEl. qwen_step d now msgEl st) ([], 0, [])
            (document_querySelectorAll d qwen_message_selector))"
  by (simp add: qwen_collect_def qwen_message_selector_def)

lemma qwen_step_seen:
  assumes "qwen_step d now el (ms, ord, seen) = (ms', ord', seen')"
  shows "set seen' \<subseteq> set seen \<union> {i. map_option element_id (node_at d el) = Some i}"
  using assms unfolding qwen_step_def
  by (auto simp: Let_def split: option.splits if_splits)

lemma qwen_step_keeps:
  assumes "qwen_step d now el (ms, ord, seen) = (ms', ord', seen')"
  shows "set ms \<subseteq> set ms'"
  using qwen_step_cases [OF assms] by auto

lemma qwen_fold_seen:
  assumes "foldl (\<lambda>st msgEl. qwen_step d now msgEl st) (ms, ord, seen) els = (ms', ord', seen')"
  shows "set seen' \<subseteq> set seen \<union> {i. \<exists>q \<in> set els. map_option element_id (node_at d q) = Some i}"
  using assms
proof (induction els arbitrary: ms ord seen)
  case Nil
  then show ?case by simp
next
  case (Cons el els)
  obtain ms1 ord1 seen1 where st: "qwen_step d now el (ms, ord, seen) = (ms1, ord1, seen1)"
    by (cases "qwen_step d now el (ms, ord, seen)")
  with Cons.prems have "foldl (\<lambda>st msgEl. qwen_step d now msgEl st) (ms1, ord1, seen1) els = (ms', ord', seen')"
    by simp
  from Cons.IH [OF this] qwen_step_seen [OF st] show ?case by auto
qed

lemma qwen_fold_keeps:
  assumes "foldl (\<lambda>st msgEl. qwen_step d now msgEl st) (ms, ord, seen) els = (ms', ord', seen')"
  shows "set ms \<subseteq> set ms'"
  using assms
proof (induction els arbitrary: ms ord seen)
  case Nil
  then show ?case by simp
next
  case (Cons el els)
  obtain ms1 ord1 seen1 where st: "qwen_step d now el (ms, ord, seen) = (ms1, ord1, seen1)"
    by (cases "qwen_step d now el (ms, ord, seen)")
  with Cons.prems have "foldl (\<lambda>st msgEl. qwen_step d now msgEl st) (ms1, ord1, seen1) els = (ms', ord', seen')"
    by simp
  from Cons.IH [OF this] qwen_step_keeps [OF st] show ?case by auto
qed

lemma qwen_step_last_resort:
  assumes n: "node_at d p = Some n"
    and id: "element_id n \<noteq> []" "element_id n \<notin> set seen"
    and flt: "\<not> includes_str (element_id n) ''input-container''"
      "\<not> includes_str (element_id n) ''button-''" "\<not> includes_str (element_id n) ''language''"
    and lr: "qwen_last_resort d p n"
    and ne: "stripped_text d p qwen_strip6 \<noteq> []"
  shows "\<exists>r. fst (qwen_step d now p (ms, ord, seen)) = ms @ [r] \<and> element r = p \<and>
           fullContent r = stripped_text d p qwen_strip6 \<and>
           role r = (if qwen_isUserMessage n then ''user'' else ''assistant'')"
proof (cases "qwen_isUserMessage n")
  case True
  with lr have c: "qwen_user_content d p = stripped_text d p qwen_strip6"
    by (simp add: qwen_last_resort_def qwen_user_content_def)
  from True n id flt ne show ?thesis
    unfolding qwen_step_def by (simp add: Let_def c)
next
  case False
  with lr have a: "qwen_isAssistantMessage d p"
    and c: "qwen_assistant_content d p = stripped_text d p qwen_strip6"
    by (simp_all add: qwen_last_resort_def qwen_assistant_content_def)
  from False a n id flt ne show ?thesis
    unfolding qwen_step_def by (simp add: Let_def c)
qed


lemma qwen_detectMessages_sorted:
  "sorted_wrt following (map element (qwen_detectMessages d now))"
proof -
  have "distinct (map element (qwen_collect d now))"
    by (rule sorted_following_distinct) (rule qwen_collect_sorted)
  then show ?thesis
    by (simp add: qwen_detectMessages_def map_element_reassign sorted_sort_by_position)
qed

lemma reassign_order_mem:
  "m \<in> set ms \<Longrightarrow> \<exists>i. m\<lparr>msg_order := Some i\<rparr> \<in> set (reassign_order k ms)"
proof (induction ms arbitrary: k)
  case Nil
  then show ?case by simp
next
  case (Cons x xs)
  show ?case
  proof (cases "m = x")
    case True
    then show ?thesis by auto
  next
    case False
    with Cons.prems have "m \<in> set xs" by simp
    from Cons.IH [OF this, of "Suc k"] show ?thesis by auto
  qed
qed

lemma filter_unique:
  "distinct (map f xs) \<Longrightarrow> x \<in> set xs \<Longrightarrow> filter (\<lambda>y. f y = f x) xs = [x]"
proof (induction xs)
  case Nil
  then show ?case by simp
next
  case (Cons y ys)
  show ?case
  proof (cases "y = x")
    case True
    with Cons.prems have "f x \<notin> f ` set ys" by simp
    have "f y \<noteq> f x" if "y \<in> set ys" for y
    proof
      assume "f y = f x"
      then have "f x = f y" by simp
      then have "f x \<in> f ` set ys" using that by (rule image_eqI)
      with \<open>f x \<notin> f ` set ys\<close> show False ..
    qed
    then have "\<forall>y \<in> set ys. f y \<noteq> f x" by blast
    then have "filter (\<lambda>y. f y = f x) ys = []" by (simp add: filter_empty_conv)
    with True show ?thesis by simp
  next
    case False
    with Cons.prems have x: "x \<in> set ys" by simp
    with Cons.prems have "f y \<noteq> f x" by auto
    with Cons.IH Cons.prems x show ?thesis by simp
  qed
qed

lemma qwen_candidate_id:
  assumes "p \<in> set (document_querySelectorAll d qwen_message_selector)" and "node_at d p = Some n"
  shows "element_id n \<noteq> []"
  using assms
  by (auto simp: document_querySelectorAll_def qwen_message_selector_def matches_at_def matches_def
        matches_complex_def matches_compound_def element_id_def split: option.splits)

text \<open>
  C2, amended.  Fallback completeness of the Qwen strategy.  Let a candidate message
  element (a \<^verbatim>\<open>div\<close> whose id starts with \<^verbatim>\<open>message-\<close>, an id no other
  candidate has, and that is none of the filtered input, button or language elements)
  carry a role signal while every specific content-container selector finds nothing.
  Then the last resort takes the text of the copy of the candidate without its
  buttons, icons, footers and action bars; if that text is not empty after trimming,
  the scan returns exactly one record anchored at the candidate, with this text as
  \<open>fullContent\<close> and with the role of the signal.
\<close>

theorem qwen_fallback_completeness:
  assumes cand: "p \<in> set (document_querySelectorAll d qwen_message_selector)"
    and n: "node_at d p = Some n"
    and uniq: "\<forall>q \<in> set (document_querySelectorAll d qwen_message_selector).
                 q \<noteq> p \<longrightarrow> map_option element_id (node_at d q) \<noteq> Some (element_id n)"
    and flt: "\<not> includes_str (element_id n) ''input-container''"
      "\<not> includes_str (element_id n) ''button-''" "\<not> includes_str (element_id n) ''language''"
    and lr: "qwen_last_resort d p n"
    and ne: "stripped_text d p qwen_strip6 \<noteq> []"
  shows "\<exists>r. filter (\<lambda>m. element m = p) (qwen_detectMessages d now) = [r] \<and>
           fullContent r = stripped_text d p qwen_strip6 \<and> fullContent r \<noteq> [] \<and>
           role r = (if qwen_isUserMessage n then ''user'' else ''assistant'')"
proof -
  let ?step = "\<lambda>st msgEl. qwen_step d now msgEl st"
  let ?cands = "document_querySelectorAll d qwen_message_selector"
  from cand obtain pre post where sp: "?cands = pre @ p # post" and "p \<notin> set pre"
    by (auto dest: split_list_first)
  obtain ms1 ord1 seen1 where s1: "foldl ?step ([], 0, []) pre = (ms1, ord1, seen1)"
    by (cases "foldl ?step ([], 0, []) pre")
  have "element_id n \<notin> set seen1"
  proof
    assume "element_id n \<in> set seen1"
    with qwen_fold_seen [OF s1] obtain q where q: "q \<in> set pre"
      and "map_option element_id (node_at d q) = Some (element_id n)" by auto
    moreover from q \<open>p \<notin> set pre\<close> sp have "q \<in> set ?cands" "q \<noteq> p" by auto
    ultimately show False using uniq by blast
  qed
  from qwen_step_last_resort [OF n qwen_candidate_id [OF cand n] this flt lr ne, of now ms1 ord1]
  obtain r where r: "fst (qwen_step d now p (ms1, ord1, seen1)) = ms1 @ [r]" "element r = p"
    "fullContent r = stripped_text d p qwen_strip6"
    "role r = (if qwen_isUserMessage n then ''user'' else ''assistant'')" by blast
  obtain ms2 ord2 seen2 where s2: "qwen_step d now p (ms1, ord1, seen1) = (ms2, ord2, seen2)"
    by (cases "qwen_step d now p (ms1, ord1, seen1)")
  obtain ms3 ord3 seen3 where s3: "foldl ?step (ms2, ord2, seen2) post = (ms3, ord3, seen3)"
    by (cases "foldl ?step (ms2, ord2, seen2) post")
  from r(1) s2 have "r \<in> set ms2" by simp
  with qwen_fold_keeps [OF s3] have "r \<in> set ms3" by auto
  moreover have "qwen_collect d now = ms3"
    by (simp add: qwen_collect_alt sp s1 s2 s3)
  ultimately have "r \<in> set (sort_by_position element (qwen_collect d now))"
    by (simp add: set_sort_by_position)
  from reassign_order_mem [OF this, of 0] obtain i where
    i: "r\<lparr>msg_order := Some i\<rparr> \<in> set (qwen_detectMessages d now)"
    by (auto simp: qwen_detectMessages_def)
  have "distinct (map element (qwen_detectMessages d now))"
    by (rule sorted_following_distinct) (rule qwen_detectMessages_sorted)
  from filter_unique [OF this i] r(2)
  have "filter (\<lambda>m. element m = p) (qwen_detectMessages d now) = [r\<lparr>msg_order := Some i\<rparr>]"
    by simp
  with r ne show ?thesis by simp
qed

text \<open>
  C2, as stated.  The ChatGPT strategy has no clone-and-strip step: its last resort is
  the text of the first descendant whose class contains \<^verbatim>\<open>message\<close>, or of the
  element itself.  For a message with an empty such descendant it finds no content and
  returns no record, although the message has text.  The DeepSeek strategy returns no
  record for a message element that bears no role signature, whatever its text.
\<close>

theorem fallback_counterexample:
  "querySelector chatgpt_fallback_doc [1, 0, 0] [[[Sel_class ''whitespace-pre-wrap'']]] = None \<and>
   querySelector chatgpt_fallback_doc [1, 0, 0] [[[Sel_class ''markdown'']]] = None \<and>
   querySelector chatgpt_fallback_doc [1, 0, 0] [[[Sel_class ''text-base'']]] = None \<and>
   querySelectorAll chatgpt_fallback_doc [1, 0] [[[Sel_has ''data-message-author-role'']]] = [[1, 0, 0]] \<and>
   stripped_text chatgpt_fallback_doc [1, 0, 0] qwen_strip6 = ''visible answer'' \<and>
   chatgpt_detectMessages chatgpt_fallback_doc (\<lambda>k. 0) = [] \<and>
   deepseek_messageElements deepseek_plain_doc [1] = [[1, 0]] \<and>
   stripped_text deepseek_plain_doc [1, 0] qwen_strip6 = ''visible answer'' \<and>
   deepseek_detectMessages deepseek_plain_doc (\<lambda>k. 0) = []"
  by code_simp

theorem qwen_fallback_completeness_witness:
  "document_querySelectorAll qwen_fallback_doc qwen_message_selector = [[1, 0], [1, 1]] \<and>
   stripped_text qwen_fallback_doc [1, 0] qwen_strip6 = ''question one'' \<and>
   stripped_text qwen_fallback_doc [1, 1] qwen_strip6 = ''answer one'' \<and>
   map (\<lambda>m. (element m, role m, fullContent m)) (qwen_detectMessages qwen_fallback_doc (\<lambda>k. 0)) =
     [([1, 0], ''user'', ''question one''), ([1, 1], ''assistant'', ''answer one'')] \<and>
   (\<exists>r. filter (\<lambda>m. element m = [1, 0]) (qwen_detectMessages qwen_fallback_doc (\<lambda>k. 0)) = [r] \<and>
        fullContent r = ''question one'' \<and> role r = ''user'') \<and>
   (\<exists>r. filter (\<lambda>m. element m = [1, 1]) (qwen_detectMessages qwen_fallback_doc (\<lambda>k. 0)) = [r] \<and>
        fullContent r = ''answer one'' \<and> role r = ''assistant'')"
proof -
  let ?d = qwen_fallback_doc
  let ?u = "Element ''div'' [(''id'', ''message-1''), (''class'', ''user-message'')] plain
             [TextNode '' question one '', Element ''button'' [] plain [TextNode ''Copy'']]"
  let ?a = "Element ''div'' [(''id'', ''message-2''), (''class'', ''response-meesage-container'')] plain
             [TextNode ''answer one'',
              Element ''div'' [(''class'', ''action-bar'')] plain [TextNode ''Like'']]"
  have c: "document_querySelectorAll ?d qwen_message_selector = [[1, 0], [1, 1]]" by code_simp
  have nu: "node_at ?d [1, 0] = Some ?u" by code_simp
  have na: "node_at ?d [1, 1] = Some ?a" by code_simp
  have iu: "element_id ?u = ''message-1''" by code_simp
  have ia: "element_id ?a = ''message-2''" by code_simp
  have fu: "\<not> includes_str (element_id ?u) ''input-container''"
    "\<not> includes_str (element_id ?u) ''button-''" "\<not> includes_str (element_id ?u) ''language''"
    by code_simp+
  have fa: "\<not> includes_str (element_id ?a) ''input-container''"
    "\<not> includes_str (element_id ?a) ''button-''" "\<not> includes_str (element_id ?a) ''language''"
    by code_simp+
  have lu: "qwen_last_resort ?d [1, 0] ?u" by code_simp
  have la: "qwen_last_resort ?d [1, 1] ?a" by code_simp
  have ru: "qwen_isUserMessage ?u" by code_simp
  have ra: "\<not> qwen_isUserMessage ?a" by code_simp
  have su: "stripped_text ?d [1, 0] qwen_strip6 = ''question one''" by code_simp
  have sa: "stripped_text ?d [1, 1] qwen_strip6 = ''answer one''" by code_simp
  have v: "map (\<lambda>m. (element m, role m, fullContent m)) (qwen_detectMessages ?d (\<lambda>k. 0)) =
     [([1, 0], ''user'', ''question one''), ([1, 1], ''assistant'', ''answer one'')]"
    by code_simp
  have uu: "\<forall>q \<in> set (document_querySelectorAll ?d qwen_message_selector).
              q \<noteq> [1, 0] \<longrightarrow> map_option element_id (node_at ?d q) \<noteq> Some (element_id ?u)"
    by code_simp
  have ua: "\<forall>q \<in> set (document_querySelectorAll ?d qwen_message_selector).
              q \<noteq> [1, 1] \<longrightarrow> map_option element_id (node_at ?d q) \<noteq> Some (element_id ?a)"
    by code_simp
  have m1: "[1, 0] \<in> set (document_querySelectorAll ?d qwen_message_selector)"
    and m2: "[1, 1] \<in> set (document_querySelectorAll ?d qwen_message_selector)"
    unfolding c by simp_all
  have n1: "stripped_text ?d [1, 0] qwen_strip6 \<noteq> []" unfolding su by simp
  have n2: "stripped_text ?d [1, 1] qwen_strip6 \<noteq> []" unfolding sa by simp
  from qwen_fallback_completeness [OF m1 nu uu fu lu n1, of "\<lambda>k. 0"] obtain r1 where
    "filter (\<lambda>m. element m = [1, 0]) (qwen_detectMessages ?d (\<lambda>k. 0)) = [r1]"
    "fullContent r1 = stripped_text ?d [1, 0] qwen_strip6"
    "role r1 = (if qwen_isUserMessage ?u then ''user'' else ''assistant'')" by blast
  with su ru have t1: "\<exists>r. filter (\<lambda>m. element m = [1, 0]) (qwen_detectMessages ?d (\<lambda>k. 0)) = [r] \<and>
        fullContent r = ''question one'' \<and> role r = ''user''"
    by (intro exI [of _ r1]) simp
  from qwen_fallback_completeness [OF m2 na ua fa la n2, of "\<lambda>k. 0"] obtain r2 where
    "filter (\<lambda>m. element m = [1, 1]) (qwen_detectMessages ?d (\<lambda>k. 0)) = [r2]"
    "fullContent r2 = stripped_text ?d [1, 1] qwen_strip6"
    "role r2 = (if qwen_isUserMessage ?a then ''user'' else ''assistant'')" by blast
  with sa ra have t2: "\<exists>r. filter (\<lambda>m. element m = [1, 1]) (qwen_detectMessages ?d (\<lambda>k. 0)) = [r] \<and>
        fullContent r = ''answer one'' \<and> role r = ''assistant''"
    by (intro exI [of _ r2]) simp
  from c su sa v t1 t2 show ?thesis by (simp only: simp_thms)
qed

section \<open>Roles and content of the records\<close>

text \<open>
  No strategy emits a record with empty \<open>fullContent\<close>, and the Qwen, Claude and
  DeepSeek strategies emit no role but \<^verbatim>\<open>user\<close> and \<^verbatim>\<open>assistant\<close>.
\<close>

lemma chatgpt_content_nonempty:
  "list_all (\<lambda>m. fullContent m \<noteq> []) (chatgpt_detectMessages d now)"
  by (rule chatgpt_detectMessages_all)
     (auto simp: chatgpt_message_def Let_def split: option.splits if_splits)

lemma qwen_roles:
  "list_all (\<lambda>m. fullContent m \<noteq> [] \<and> (role m = ''user'' \<or> role m = ''assistant''))
     (qwen_detectMessages d now)"
  by (rule qwen_detectMessages_all) auto

lemma claude_roles:
  "list_all (\<lambda>m. fullContent m \<noteq> [] \<and> (role m = ''user'' \<or> role m = ''assistant''))
     (claude_detectMessages d now)"
  by (rule claude_detectMessages_all)
     (auto simp: claude_user_def claude_assistant_def turn_accepted_def Let_def
           split: list.splits if_splits)

lemma deepseek_classify_role:
  "deepseek_classify d el = (Some r, c) \<Longrightarrow> r = ''user'' \<or> r = ''assistant''"
  by (auto simp: deepseek_classify_def split: option.splits if_splits)

lemma deepseek_roles:
  "list_all (\<lambda>m. fullContent m \<noteq> [] \<and> (role m = ''user'' \<or> role m = ''assistant''))
     (deepseek_detectMessages d now)"
proof (rule deepseek_detectMessages_all)
  fix el i k m
  assume a: "deepseek_message d now el i k = Some m"
  obtain r c0 where rc: "deepseek_classify d el = (r, c0)" by (cases "deepseek_classify d el")
  with a obtain r' where r: "r = Some r'" "role m = r'" and "fullContent m \<noteq> []"
    by (cases r) (auto simp: deepseek_message_def Let_def split: if_splits)
  with rc deepseek_classify_role [of d el r' c0]
  show "fullContent m \<noteq> [] \<and> (role m = ''user'' \<or> role m = ''assistant'')" by simp
qed


text \<open>
  C9, at the failing input.  The ChatGPT strategy copies the value of
  \<^verbatim>\<open>data-message-author-role\<close> into the record: for a message whose author role
  is \<^verbatim>\<open>tool\<close> the returned record has the role \<^verbatim>\<open>tool\<close>.
\<close>

theorem chatgpt_role_tool:
  "map (\<lambda>m. (role m, fullContent m)) (chatgpt_detectMessages chatgpt_tool_doc now) =
     [(''tool'', ''result'')]"
  by code_simp

end
